theory Spec2Isabelle
  imports Complex_Main "HOL-Library.AList" "HOL-Library.Sublist"
begin

section \<open>The PM2 monitor (pm2-monitor.js) as HOL functions\<close>

text \<open>
  The script keeps two module-level maps, \<open>appRestartHistory\<close> and
  \<open>notificationThrottleCache\<close>, and talks to the outside through \<open>pm2 jlist\<close>,
  \<open>axios.post\<close>, the status file, the console and timers. Here every function takes the
  map it reads and returns the map it leaves behind, and what it does to the outside is a
  list of \<open>effect\<close>s in program order. What the outside answers (a snapshot or a fault,
  the outcome of a post, of a file read, of a file write, the clock) is an argument.

  A call of \<open>sendSlackNotification\<close> made by the monitoring code is never awaited there, so
  it is recorded as the effect \<open>Notify\<close>; the function itself is modelled on its own, with
  the throttle cache as its state.
\<close>

subsection \<open>Data\<close>

text \<open>A thrown JavaScript error: its \<open>code\<close> property (undefined when it has none) and its message.\<close>

record js_error =
  code :: "string option"
  message :: string

text \<open>
  One element of the array \<open>getPm2Processes\<close> returns. \<open>restarts\<close> is pm2's restart
  counter (\<open>restart_time || 0\<close>), a natural number; \<open>cpu\<close> and \<open>memory\<close> are JavaScript
  numbers that are never NaN (\<open>|| 0\<close>), read as the rationals they denote.
\<close>

record proc =
  pm_id :: int
  name :: string
  status :: string
  restarts :: nat
  cpu :: rat
  memory :: rat

record thresholds =
  CPU :: rat
  MEMORY :: rat

record web_server =
  ENABLED :: bool
  STATUS_LOG_FILE :: string
  MAX_HISTORY :: nat

record config =
  CRON_SCHEDULE :: string
  EXCLUDED_APPS :: "string list"
  SLACK_WEBHOOK_URL :: "string option"
  THRESHOLDS :: thresholds
  THROTTLE_DURATION_MS :: int
  RECHECK_INTERVAL_MS :: nat
  RECHECK_MAX_ATTEMPTS :: nat
  WEB_SERVER :: web_server

text \<open>The \<open>CONFIG\<close> object of the script; its argument is \<open>process.env.SLACK_WEBHOOK_URL\<close>.\<close>

definition CONFIG :: "string option \<Rightarrow> config" where
  "CONFIG env_url =
     \<lparr> CRON_SCHEDULE = ''*/1 8-19 * * 1-5'',
       EXCLUDED_APPS = [''pm2-monitor'', ''pm2-logrotate''],
       SLACK_WEBHOOK_URL = env_url,
       THRESHOLDS = \<lparr> CPU = 80, MEMORY = 450 \<rparr>,
       THROTTLE_DURATION_MS = 30 * 1000,
       RECHECK_INTERVAL_MS = 5 * 1000,
       RECHECK_MAX_ATTEMPTS = 12,
       WEB_SERVER = \<lparr> ENABLED = True, STATUS_LOG_FILE = ''./status-history.json'',
                      MAX_HISTORY = 1440 \<rparr> \<rparr>"

text \<open>The getter \<open>RECHECK_TIMEOUT_SEC\<close>.\<close>

definition RECHECK_TIMEOUT_SEC :: "config \<Rightarrow> rat" where
  "RECHECK_TIMEOUT_SEC cfg =
     (of_nat (RECHECK_INTERVAL_MS cfg) / 1000) * of_nat (RECHECK_MAX_ATTEMPTS cfg)"

text \<open>The record \<open>logStatusToFile\<close> puts in front of the history.\<close>

record history_entry =
  timestamp :: string
  processes :: "proc list"

text \<open>
  The JSON body of a Slack message as \<open>createSlackPayload\<close> builds it: the attachment's
  colour, the header text, the two fields of the first section and the message text.
\<close>

record slack_payload =
  pl_color :: string
  pl_header :: string
  pl_app_field :: string
  pl_time_field :: string
  pl_message :: string

datatype effect =
    ConsoleLog string
  | ConsoleError string
  | Notify string string string string
  | StartPolling string
  | ClearInterval
  | AxiosPost "string option" slack_payload
  | StartWebServer
  | CronSchedule string
  | ProcessExit nat

text \<open>
  \<open>Notify appName title message color\<close> is a call
  \<open>sendSlackNotification(appName, title, message, color)\<close>, \<open>StartPolling appName\<close> a call
  \<open>startPollingAppStatus(appName)\<close>, \<open>AxiosPost url payload\<close> a call of \<open>axios.post\<close>.
\<close>

subsection \<open>Strings\<close>

text \<open>
  A template literal turns a number into its decimal string. \<open>numStr\<close> does so for the
  numbers this script prints: integers, and decimal fractions of a few digits (pm2's CPU
  percentage, the memory in MB rounded to two digits).
\<close>

definition digitChar :: "nat \<Rightarrow> char" where
  "digitChar d = ''0123456789'' ! d"

fun natStr :: "nat \<Rightarrow> string" where
  "natStr n = (if n < 10 then [digitChar n] else natStr (n div 10) @ [digitChar (n mod 10)])"

fun fracStr :: "nat \<Rightarrow> rat \<Rightarrow> string" where
  "fracStr 0 r = []"
| "fracStr (Suc k) r =
     (if r = 0 then []
      else digitChar (nat \<lfloor>r * 10\<rfloor>) # fracStr k (r * 10 - of_int \<lfloor>r * 10\<rfloor>))"

definition numStr :: "rat \<Rightarrow> string" where
  "numStr r =
     (if r < 0 then ''-'' else []) @ natStr (nat \<lfloor>\<bar>r\<bar>\<rfloor>) @
     (if \<bar>r\<bar> = of_int \<lfloor>\<bar>r\<bar>\<rfloor> then [] else ''.'' @ fracStr 20 (\<bar>r\<bar> - of_int \<lfloor>\<bar>r\<bar>\<rfloor>))"

text \<open>\<open>Array.prototype.join\<close> on strings.\<close>

fun join :: "string \<Rightarrow> string list \<Rightarrow> string" where
  "join sep [] = []"
| "join sep [x] = x"
| "join sep (x # y # ys) = x @ sep @ join sep (y # ys)"

text \<open>The emoji of the script, as their UTF-8 bytes.\<close>

definition emojiCheck :: string where
  "emojiCheck = [CHR 0xE2, CHR 0x9C, CHR 0x85]"

definition emojiWarning :: string where
  "emojiWarning = [CHR 0xE2, CHR 0x9A, CHR 0xA0, CHR 0xEF, CHR 0xB8, CHR 0x8F]"

definition emojiSiren :: string where
  "emojiSiren = [CHR 0xF0, CHR 0x9F, CHR 0x9A, CHR 0xA8]"

definition emojiCross :: string where
  "emojiCross = [CHR 0xE2, CHR 0x9D, CHR 0x8C]"

definition emojiPackage :: string where
  "emojiPackage = [CHR 0xF0, CHR 0x9F, CHR 0x93, CHR 0xA6]"

definition emojiRocket :: string where
  "emojiRocket = [CHR 0xF0, CHR 0x9F, CHR 0x9A, CHR 0x80]"

subsection \<open>detectAndHandleRestarts\<close>

text \<open>
  \<open>currentRestartsByApp\<close> is a JavaScript \<open>Map\<close> that is iterated afterwards, so its
  insertion order matters: it is an association list, and \<open>Map.set\<close> is \<open>AList.update\<close>
  (a key that is present keeps its place, a new key goes to the end).
  \<open>appRestartHistory\<close> is only read and written by key: a map.
\<close>

fun sumRestartsByApp :: "proc list \<Rightarrow> (string \<times> nat) list \<Rightarrow> (string \<times> nat) list" where
  "sumRestartsByApp [] currentRestartsByApp = currentRestartsByApp"
| "sumRestartsByApp (p # ps) currentRestartsByApp =
     (let count = (case map_of currentRestartsByApp (name p) of None \<Rightarrow> 0 | Some c \<Rightarrow> c)
      in sumRestartsByApp ps (AList.update (name p) (count + restarts p) currentRestartsByApp))"

definition restartMessage :: "config \<Rightarrow> string \<Rightarrow> string" where
  "restartMessage cfg appName =
     ''A restart was detected for '' @ [CHR 0x27] @ appName @ [CHR 0x27] @
     ''. Monitoring status for up to '' @ numStr (RECHECK_TIMEOUT_SEC cfg) @ '' seconds.''"

text \<open>
  The second loop, over the entries of \<open>currentRestartsByApp\<close>: the result is the set
  \<open>restartedApps\<close>, the history after the loop and the calls made, in order.
\<close>

fun handleRestarts ::
  "config \<Rightarrow> (string \<rightharpoonup> nat) \<Rightarrow> (string \<times> nat) list \<Rightarrow>
   string set \<times> (string \<rightharpoonup> nat) \<times> effect list" where
  "handleRestarts cfg appRestartHistory [] = ({}, appRestartHistory, [])"
| "handleRestarts cfg appRestartHistory ((appName, totalRestarts) # entries) =
     (let restarted =
            (case appRestartHistory appName of
               None \<Rightarrow> False
             | Some prevRestarts \<Rightarrow> totalRestarts > prevRestarts);
          (restartedApps, history', effects) =
            handleRestarts cfg (appRestartHistory(appName \<mapsto> totalRestarts)) entries
      in if restarted
         then (insert appName restartedApps, history',
               Notify appName ''Process Restart Detected'' (restartMessage cfg appName) ''warning''
               # StartPolling appName # effects)
         else (restartedApps, history', effects))"

definition detectAndHandleRestarts ::
  "config \<Rightarrow> (string \<rightharpoonup> nat) \<Rightarrow> proc list \<Rightarrow>
   string set \<times> (string \<rightharpoonup> nat) \<times> effect list" where
  "detectAndHandleRestarts cfg appRestartHistory procs =
     handleRestarts cfg appRestartHistory (sumRestartsByApp procs [])"

subsection \<open>startPollingAppStatus\<close>

text \<open>
  One run of the callback given to \<open>setInterval\<close>. Its arguments are the counter
  \<open>attempts\<close> before the run and what \<open>await getPm2Processes()\<close> gave: a thrown error or
  the process list. Its result is the counter after the run, how the run ended and what it
  did. \<open>Stabilized\<close>, \<open>Failed\<close> and \<open>Errored\<close> are the three places where the callback
  calls \<open>clearInterval\<close> (the success branch, the branch \<open>attempts >= RECHECK_MAX_ATTEMPTS\<close>
  and the \<open>catch\<close>); after \<open>Polling\<close> the timer is still set.
\<close>

datatype poll_state = Polling | Stabilized | Failed | Errored

definition pollingLine :: "config \<Rightarrow> string \<Rightarrow> nat \<Rightarrow> string" where
  "pollingLine cfg appName attempts =
     ''[Polling] Checking status for '' @ [CHR 0x27] @ appName @ [CHR 0x27] @ ''... ('' @
     numStr (of_nat attempts) @ ''/'' @ numStr (of_nat (RECHECK_MAX_ATTEMPTS cfg)) @ '')''"

definition successMessage :: "string \<Rightarrow> proc \<Rightarrow> string" where
  "successMessage appName p =
     ''App '' @ [CHR 0x27] @ appName @ [CHR 0x27] @
     '' successfully restarted and is now '' @ [CHR 0x27] @ ''online'' @ [CHR 0x27] @ ''.'' @
     [CHR 0x0A] @ ''(CPU: '' @ numStr (cpu p) @ ''%, Memory: '' @ numStr (memory p) @ ''MB)''"

definition failureReason :: "proc list \<Rightarrow> string" where
  "failureReason appInstances =
     (if length appInstances > 0
      then ''Current status:'' @ [CHR 0x0A] @ ''- '' @
           join ([CHR 0x0A] @ ''- '')
             (map (\<lambda>p. ''ID '' @ numStr (of_int (pm_id p)) @ '': '' @ status p) appInstances)
      else ''Could not find process.'')"

definition failureMessage :: "string \<Rightarrow> proc list \<Rightarrow> string" where
  "failureMessage appName appInstances =
     ''App '' @ [CHR 0x27] @ appName @ [CHR 0x27] @ '' failed to become '' @
     [CHR 0x27] @ ''online'' @ [CHR 0x27] @ '' within the time limit.'' @ [CHR 0x0A] @
     failureReason appInstances"

definition pollTick ::
  "config \<Rightarrow> string \<Rightarrow> nat \<Rightarrow> js_error + proc list \<Rightarrow> nat \<times> poll_state \<times> effect list" where
  "pollTick cfg appName attempts0 fetched =
     (let attempts = attempts0 + 1;
          line = ConsoleLog (pollingLine cfg appName attempts)
      in case fetched of
           Inl error \<Rightarrow>
             (attempts, Errored,
              [line, ClearInterval,
               ConsoleError (''[Error] Polling for '' @ [CHR 0x27] @ appName @ [CHR 0x27] @
                             '' failed: '' @ message error),
               Notify appName
                 (''Status Polling Error for '' @ [CHR 0x27] @ appName @ [CHR 0x27])
                 (message error) ''danger''])
         | Inr procs \<Rightarrow>
             (let appInstances = filter (\<lambda>p. name p = appName) procs;
                  isAllOnline = (length appInstances > 0 \<and>
                                 list_all (\<lambda>p. status p = ''online'') appInstances)
              in if isAllOnline
                 then (attempts, Stabilized,
                       [line, ClearInterval,
                        ConsoleLog (''[Success] App '' @ [CHR 0x27] @ appName @ [CHR 0x27] @
                                    '' has stabilized with '' @ [CHR 0x27] @ ''online'' @
                                    [CHR 0x27] @ '' status.''),
                        Notify appName ''Restart Successful''
                          (successMessage appName (hd appInstances)) ''good''])
                 else if attempts \<ge> RECHECK_MAX_ATTEMPTS cfg
                 then (attempts, Failed,
                       [line, ClearInterval,
                        ConsoleError (''[Failure] App '' @ [CHR 0x27] @ appName @ [CHR 0x27] @
                                      '' did not stabilize within the time limit.''),
                        Notify appName ''Restart Failed''
                          (failureMessage appName appInstances) ''danger''])
                 else (attempts, Polling, [line])))"

text \<open>
  The timer: the callback runs again and again until one run clears the interval.
  \<open>fetch i\<close> is what the \<open>i\<close>-th call of \<open>getPm2Processes\<close> made by this poller gives.
  Each run is taken to finish before the next tick (the fetch takes less than
  \<open>RECHECK_INTERVAL_MS\<close>). The result: the number of runs, which is the number of
  snapshots fetched, the state reached and everything done, in order.
\<close>

function pollFrom ::
  "config \<Rightarrow> string \<Rightarrow> (nat \<Rightarrow> js_error + proc list) \<Rightarrow> nat \<Rightarrow> nat \<times> poll_state \<times> effect list" where
  "pollFrom cfg appName fetch attempts =
     (case pollTick cfg appName attempts (fetch (attempts + 1)) of
        (attempts', Polling, effects) \<Rightarrow>
          (case pollFrom cfg appName fetch (attempts + 1) of
             (n, final, effects') \<Rightarrow> (n, final, effects @ effects'))
      | (attempts', final, effects) \<Rightarrow> (attempts', final, effects))"
  by pat_completeness auto
termination
  by (relation "measure (\<lambda>(cfg, appName, fetch, attempts). RECHECK_MAX_ATTEMPTS cfg - attempts)")
     (auto simp: pollTick_def Let_def split: sum.splits if_splits)

definition startPollingAppStatus ::
  "config \<Rightarrow> string \<Rightarrow> (nat \<Rightarrow> js_error + proc list) \<Rightarrow> nat \<times> poll_state \<times> effect list" where
  "startPollingAppStatus cfg appName fetch = pollFrom cfg appName fetch 0"

subsection \<open>checkStableProcesses\<close>

definition checkLine :: "proc \<Rightarrow> string" where
  "checkLine p =
     ''[Check] '' @ name p @ ''('' @ numStr (of_int (pm_id p)) @ ''): Status('' @ status p @
     ''), CPU('' @ numStr (cpu p) @ ''%), Memory('' @ numStr (memory p) @ ''MB)''"

definition statusMessage :: "proc \<Rightarrow> string" where
  "statusMessage p =
     ''Instance `'' @ numStr (of_int (pm_id p)) @ ''` has a status of `'' @ status p @ ''`.''"

definition cpuMessage :: "proc \<Rightarrow> string" where
  "cpuMessage p =
     ''Instance `'' @ numStr (of_int (pm_id p)) @ ''` is using `'' @ numStr (cpu p) @ ''%` CPU.''"

definition memoryMessage :: "proc \<Rightarrow> string" where
  "memoryMessage p =
     ''Instance `'' @ numStr (of_int (pm_id p)) @ ''` is using `'' @ numStr (memory p) @
     ''MB` of memory.''"

fun checkStableProcesses :: "config \<Rightarrow> proc list \<Rightarrow> string set \<Rightarrow> effect list" where
  "checkStableProcesses cfg [] restartedApps = []"
| "checkStableProcesses cfg (p # ps) restartedApps =
     (if name p \<in> restartedApps then checkStableProcesses cfg ps restartedApps
      else
        [ConsoleLog (checkLine p)] @
        (if status p \<noteq> ''online''
         then [Notify (name p) ''Process Status Alert'' (statusMessage p) ''danger'']
         else (if cpu p > CPU (THRESHOLDS cfg)
               then [Notify (name p) ''High CPU Usage'' (cpuMessage p) ''warning'']
               else []) @
              (if memory p > MEMORY (THRESHOLDS cfg)
               then [Notify (name p) ''High Memory Usage'' (memoryMessage p) ''warning'']
               else [])) @
        checkStableProcesses cfg ps restartedApps)"

subsection \<open>sendSlackNotification\<close>

definition createSlackPayload :: "string \<Rightarrow> string \<Rightarrow> string \<Rightarrow> string \<Rightarrow> string \<Rightarrow> slack_payload" where
  "createSlackPayload timeString appName title msg color =
     (let emoji = (if color = ''good'' then emojiCheck
                   else if color = ''warning'' then emojiWarning else emojiSiren)
      in \<lparr> pl_color = color,
           pl_header = emoji @ '' [PM2] '' @ title,
           pl_app_field = ''*App Name:*'' @ [CHR 0x0A] @ ''`'' @ appName @ ''`'',
           pl_time_field = ''*Time:*'' @ [CHR 0x0A] @ timeString,
           pl_message = msg \<rparr>)"

text \<open>
  The function up to its \<open>await\<close>: the key, the throttle test and, when the test lets the
  call through, the post. \<open>now\<close> is \<open>Date.now()\<close>, \<open>timeString\<close> the date the payload
  prints. The result holds the key and \<open>now\<close> for the continuation, or nothing when the
  call returned at the throttle test.
\<close>

definition sendStart ::
  "config \<Rightarrow> (string \<rightharpoonup> int) \<Rightarrow> int \<Rightarrow> string \<Rightarrow> string \<Rightarrow> string \<Rightarrow> string \<Rightarrow> string \<Rightarrow>
   (string \<times> int) option \<times> effect list" where
  "sendStart cfg notificationThrottleCache now timeString appName title msg color =
     (let key = appName @ ''::'' @ title
      in if (case notificationThrottleCache key of
               None \<Rightarrow> False
             | Some sent \<Rightarrow> now - sent < THROTTLE_DURATION_MS cfg)
         then (None, [])
         else (Some (key, now),
               [ConsoleLog (''[Notification] Sending to Slack: ['' @ appName @ ''] '' @ title),
                AxiosPost (SLACK_WEBHOOK_URL cfg)
                  (createSlackPayload timeString appName title msg color)]))"

text \<open>
  The function after its \<open>await\<close>, on the cache as it is then: \<open>posted\<close> is \<open>None\<close> when the
  promise of \<open>axios.post\<close> resolved and the error when it rejected (the \<open>catch\<close>).
\<close>

definition sendSettle ::
  "(string \<rightharpoonup> int) \<Rightarrow> string \<times> int \<Rightarrow> js_error option \<Rightarrow> (string \<rightharpoonup> int) \<times> effect list" where
  "sendSettle notificationThrottleCache pending posted =
     (case posted of
        None \<Rightarrow> (notificationThrottleCache(fst pending \<mapsto> snd pending), [])
      | Some error \<Rightarrow>
          (notificationThrottleCache,
           [ConsoleError (''[Error] Failed to send Slack notification: '' @ message error)]))"

text \<open>
  A whole call, when nothing else touches the cache while the post is under way. The first
  component is how the call ends for its caller: \<open>Inr ()\<close> when its promise resolves,
  \<open>Inl e\<close> if it rejected with \<open>e\<close>.
\<close>

definition sendSlackNotification ::
  "config \<Rightarrow> (string \<rightharpoonup> int) \<Rightarrow> int \<Rightarrow> string \<Rightarrow> js_error option \<Rightarrow>
   string \<Rightarrow> string \<Rightarrow> string \<Rightarrow> string \<Rightarrow>
   (js_error + unit) \<times> (string \<rightharpoonup> int) \<times> effect list" where
  "sendSlackNotification cfg notificationThrottleCache now timeString posted appName title msg color =
     (case sendStart cfg notificationThrottleCache now timeString appName title msg color of
        (None, effects) \<Rightarrow> (Inr (), notificationThrottleCache, effects)
      | (Some pending, effects) \<Rightarrow>
          (case sendSettle notificationThrottleCache pending posted of
             (cache', effects') \<Rightarrow> (Inr (), cache', effects @ effects')))"

text \<open>The calls of \<open>axios.post\<close> among some effects: the delivery attempts.\<close>

fun deliveries :: "effect list \<Rightarrow> nat" where
  "deliveries [] = 0"
| "deliveries (AxiosPost url payload # es) = Suc (deliveries es)"
| "deliveries (e # es) = deliveries es"

text \<open>
  Calls made one after the other, each settled before the next is made: what one call needs
  from outside, and the cache and the effects after all of them.
\<close>

record send_call =
  call_now :: int
  call_time :: string
  call_posted :: "js_error option"
  call_app :: string
  call_title :: string
  call_msg :: string
  call_color :: string


subsection \<open>logStatusToFile\<close>

text \<open>
  What the \<open>try\<close> block of \<open>logStatusToFile\<close> meets: \<open>Parsed h\<close> when the file was read and
  parsed to the array \<open>h\<close>; \<open>ReadThrows e\<close> when \<open>fs.readFile\<close> or \<open>JSON.parse\<close> threw
  \<open>e\<close>; \<open>ParsedOther e\<close> when the file parsed to a value that is no array, so that
  \<open>history.unshift\<close> throws the TypeError \<open>e\<close>, outside the \<open>try\<close>.
\<close>

datatype read_outcome = Parsed "history_entry list" | ReadThrows js_error | ParsedOther js_error

text \<open>
  \<open>wrote\<close> is \<open>None\<close> when \<open>fs.writeFile\<close> succeeded and the error when it threw.
  The result: how the call ends for its caller, the new content of the file when it was
  written, and the effects.
\<close>

definition logStatusToFile ::
  "config \<Rightarrow> read_outcome \<Rightarrow> js_error option \<Rightarrow> string \<Rightarrow> proc list \<Rightarrow>
   (js_error + unit) \<times> history_entry list option \<times> effect list" where
  "logStatusToFile cfg fileRead wrote now procs =
     (case (case fileRead of
              Parsed h \<Rightarrow> (Inr h, [])
            | ReadThrows error \<Rightarrow>
                (Inr [],
                 if code error \<noteq> Some ''ENOENT''
                 then [ConsoleError (''[Error] Failed to read status history file: '' @
                                     message error)]
                 else [])
            | ParsedOther e \<Rightarrow> (Inl e, [])) of
        (Inl e, effects) \<Rightarrow> (Inl e, None, effects)
      | (Inr history, effects) \<Rightarrow>
          (let prunedHistory =
                 take (MAX_HISTORY (WEB_SERVER cfg))
                   (\<lparr> timestamp = now, processes = procs \<rparr> # history)
           in case wrote of
                None \<Rightarrow> (Inr (), Some prunedHistory, effects)
              | Some e \<Rightarrow> (Inl e, None, effects)))"

text \<open>
  The status file between calls: \<open>None\<close> while it does not exist, else the array it holds.
  A read gives what the file holds unless the read itself faults.
\<close>

definition readStatusFile :: "history_entry list option \<Rightarrow> js_error option \<Rightarrow> read_outcome" where
  "readStatusFile file fault =
     (case fault of
        Some e \<Rightarrow> ReadThrows e
      | None \<Rightarrow>
          (case file of
             None \<Rightarrow> ReadThrows \<lparr> code = Some ''ENOENT'', message = ''no such file or directory'' \<rparr>
           | Some h \<Rightarrow> Parsed h))"

record append_step =
  step_time :: string
  step_procs :: "proc list"
  read_fault :: "js_error option"
  write_fault :: "js_error option"

fun appendAll :: "config \<Rightarrow> history_entry list option \<Rightarrow> append_step list \<Rightarrow> history_entry list option" where
  "appendAll cfg file [] = file"
| "appendAll cfg file (s # steps) =
     (case logStatusToFile cfg (readStatusFile file (read_fault s)) (write_fault s)
             (step_time s) (step_procs s) of
        (r, Some h, effects) \<Rightarrow> appendAll cfg (Some h) steps
      | (r, None, effects) \<Rightarrow> appendAll cfg file steps)"

subsection \<open>monitorProcesses and initialize\<close>

text \<open>
  One monitoring cycle. \<open>snapshot\<close> is what \<open>await getPm2Processes()\<close> gives. The result:
  \<open>appRestartHistory\<close> after the cycle, the new content of the status file when it was
  written, and the effects.
\<close>

definition monitorProcesses ::
  "config \<Rightarrow> (string \<rightharpoonup> nat) \<Rightarrow> js_error + proc list \<Rightarrow> read_outcome \<Rightarrow> js_error option \<Rightarrow> string \<Rightarrow>
   (string \<rightharpoonup> nat) \<times> history_entry list option \<times> effect list" where
  "monitorProcesses cfg appRestartHistory snapshot fileRead wrote now =
     (let caught = (\<lambda>error.
            [ConsoleError (''[Error] Failed to run monitoring cycle: '' @ message error),
             Notify ''PM2 Monitor'' ''Monitoring Script Error'' (message error) ''danger''])
      in case snapshot of
           Inl error \<Rightarrow> (appRestartHistory, None, caught error)
         | Inr procs \<Rightarrow>
             (case detectAndHandleRestarts cfg appRestartHistory procs of
                (restartedApps, history', effects1) \<Rightarrow>
                  (let effects2 = checkStableProcesses cfg procs restartedApps
                   in if ENABLED (WEB_SERVER cfg)
                      then (case logStatusToFile cfg fileRead wrote now procs of
                              (Inl error, written, effects3) \<Rightarrow>
                                (history', written, effects1 @ effects2 @ effects3 @ caught error)
                            | (Inr u, written, effects3) \<Rightarrow>
                                (history', written, effects1 @ effects2 @ effects3))
                      else (history', None, effects1 @ effects2))))"

text \<open>The loop of \<open>initialize\<close> that records the restart counts of the initial snapshot.\<close>

fun seedRestartHistory :: "proc list \<Rightarrow> (string \<rightharpoonup> nat) \<Rightarrow> (string \<rightharpoonup> nat)" where
  "seedRestartHistory [] appRestartHistory = appRestartHistory"
| "seedRestartHistory (p # ps) appRestartHistory =
     (let count = (case appRestartHistory (name p) of None \<Rightarrow> 0 | Some c \<Rightarrow> c)
      in seedRestartHistory ps (appRestartHistory(name p \<mapsto> count + restarts p)))"

text \<open>
  \<open>initialize\<close>, on the empty \<open>appRestartHistory\<close> the module creates. \<open>initial\<close> is what
  its own \<open>await getPm2Processes()\<close> gives; the other arguments are those of the first
  cycle, which it runs itself. It ends in \<open>process.exit(1)\<close>, in a rejected promise, or
  with the monitor running.
\<close>

datatype init_outcome =
    Exited nat
  | Rejected js_error
  | Running "string \<rightharpoonup> nat" "history_entry list option"

definition initialize ::
  "config \<Rightarrow> js_error + proc list \<Rightarrow> js_error + proc list \<Rightarrow> read_outcome \<Rightarrow> js_error option \<Rightarrow>
   string \<Rightarrow> init_outcome \<times> effect list" where
  "initialize cfg initial snapshot fileRead wrote now =
     (let hello = [ConsoleLog (emojiCheck @ '' Starting PM2 monitoring script.'')]
      in if (case SLACK_WEBHOOK_URL cfg of
               None \<Rightarrow> True
             | Some url \<Rightarrow> url = [] \<or> \<not> prefix ''https://hooks.slack.com/'' url)
         then (Exited 1,
               hello @
               [ConsoleError (emojiCross @ '' Fatal Error: SLACK_WEBHOOK_URL environment variable is not valid. Exiting.''),
                ProcessExit 1])
         else
           (let excluded = join '', '' (EXCLUDED_APPS cfg);
                setup = hello @
                  [ConsoleLog (''- Schedule: '' @ CRON_SCHEDULE cfg),
                   ConsoleLog (''- Excluded Apps: '' @ (if excluded = [] then ''None'' else excluded))] @
                  (if ENABLED (WEB_SERVER cfg) then [StartWebServer] else [])
            in case initial of
                 Inl error \<Rightarrow> (Rejected error, setup)
               | Inr initialProcesses \<Rightarrow>
                   (case monitorProcesses cfg (seedRestartHistory initialProcesses Map.empty)
                           snapshot fileRead wrote now of
                      (history', written, effects) \<Rightarrow>
                        (Running history' written,
                         setup @
                         [ConsoleLog (emojiPackage @ '' Initial process state has been recorded.''),
                          CronSchedule (CRON_SCHEDULE cfg),
                          ConsoleLog (emojiRocket @ '' Running the first monitoring check immediately...'')] @
                         effects))))"

section \<open>What the properties speak of\<close>

text \<open>The aggregated restart count of a name: the sum of \<open>restarts\<close> over its instances.\<close>

definition totalRestarts :: "string \<Rightarrow> proc list \<Rightarrow> nat" where
  "totalRestarts appName procs =
     sum_list (map restarts (filter (\<lambda>p. name p = appName) procs))"

fun isNotify :: "effect \<Rightarrow> bool" where
  "isNotify (Notify a t m c) = True"
| "isNotify e = False"

fun isRestartNotice :: "string \<Rightarrow> effect \<Rightarrow> bool" where
  "isRestartNotice appName (Notify a t m c) = (a = appName \<and> t = ''Process Restart Detected'')"
| "isRestartNotice appName e = False"

fun isRestartAlert :: "effect \<Rightarrow> bool" where
  "isRestartAlert (Notify a t m c) = (t = ''Process Restart Detected'')"
| "isRestartAlert (StartPolling a) = True"
| "isRestartAlert e = False"

text \<open>
  The \<open>console.log\<close> lines, and what a cycle can do after its stable check: log an error,
  or report its own failure under the subject \<open>PM2 Monitor\<close>.
\<close>

fun isConsoleLog :: "effect \<Rightarrow> bool" where
  "isConsoleLog (ConsoleLog s) = True"
| "isConsoleLog e = False"

fun isAftermath :: "effect \<Rightarrow> bool" where
  "isAftermath (ConsoleError s) = True"
| "isAftermath (Notify a t m c) = (a = ''PM2 Monitor'' \<and> t = ''Monitoring Script Error'')"
| "isAftermath e = False"

text \<open>
  Reading a decimal numeral back: what a printed instance id names.
\<close>

definition readNat :: "string \<Rightarrow> nat" where
  "readNat s = foldl (\<lambda>n c. 10 * n + (of_char c - 48)) 0 s"

definition readInt :: "string \<Rightarrow> int" where
  "readInt s =
     (case s of
        [] \<Rightarrow> 0
      | c # cs \<Rightarrow> if c = CHR ''-'' then - int (readNat cs) else int (readNat s))"

text \<open>
  The threshold evaluator in the words of the specification, with the messages written
  out: a status alert that names the instance and its status for a record that is not
  online; for an online record a CPU warning when the CPU is above its ceiling and,
  independently, a memory warning when the memory is above its ceiling.
\<close>

definition thresholdAlerts :: "config \<Rightarrow> proc \<Rightarrow> effect list" where
  "thresholdAlerts cfg p =
     (if status p \<noteq> ''online''
      then [Notify (name p) ''Process Status Alert''
              (''Instance `'' @ numStr (of_int (pm_id p)) @ ''` has a status of `'' @
               status p @ ''`.'') ''danger'']
      else (if cpu p > CPU (THRESHOLDS cfg)
            then [Notify (name p) ''High CPU Usage''
                    (''Instance `'' @ numStr (of_int (pm_id p)) @ ''` is using `'' @
                     numStr (cpu p) @ ''%` CPU.'') ''warning'']
            else []) @
           (if memory p > MEMORY (THRESHOLDS cfg)
            then [Notify (name p) ''High Memory Usage''
                    (''Instance `'' @ numStr (of_int (pm_id p)) @ ''` is using `'' @
                     numStr (memory p) @ ''MB` of memory.'') ''warning'']
            else []))"

text \<open>
  A sample of the poller: the instances of the name in it, whether it shows the name all
  online (at least one instance, every instance \<open>online\<close>), whether the fetch faulted.
\<close>

definition instancesOf :: "string \<Rightarrow> js_error + proc list \<Rightarrow> proc list" where
  "instancesOf appName fetched =
     (case fetched of Inl e \<Rightarrow> [] | Inr procs \<Rightarrow> filter (\<lambda>p. name p = appName) procs)"

definition allOnline :: "string \<Rightarrow> js_error + proc list \<Rightarrow> bool" where
  "allOnline appName fetched =
     (instancesOf appName fetched \<noteq> [] \<and>
      list_all (\<lambda>p. status p = ''online'') (instancesOf appName fetched))"

definition faulted :: "js_error + proc list \<Rightarrow> bool" where
  "faulted fetched = (case fetched of Inl e \<Rightarrow> True | Inr procs \<Rightarrow> False)"

text \<open>The history log: the entry a step adds, a step without faults, the entries on disk.\<close>

definition entryOf :: "append_step \<Rightarrow> history_entry" where
  "entryOf s = \<lparr> timestamp = step_time s, processes = step_procs s \<rparr>"

definition faultFree :: "append_step \<Rightarrow> bool" where
  "faultFree s = (read_fault s = None \<and> write_fault s = None)"

definition stored :: "history_entry list option \<Rightarrow> history_entry list" where
  "stored disk = (case disk of None \<Rightarrow> [] | Some h \<Rightarrow> h)"

subsection \<open>Concrete inputs\<close>

definition exampleConfig :: config where
  "exampleConfig = CONFIG (Some ''https://hooks.slack.com/services/T0/B0/X0'')"

definition smallConfig :: config where
  "smallConfig =
     exampleConfig\<lparr> WEB_SERVER := \<lparr> ENABLED = True, STATUS_LOG_FILE = ''./status-history.json'',
                                    MAX_HISTORY = 2 \<rparr> \<rparr>"

definition worker :: proc where
  "worker = \<lparr> pm_id = 3, name = ''worker'', status = ''online'', restarts = 0,
              cpu = 85, memory = 300 \<rparr>"

definition api0 :: proc where
  "api0 = \<lparr> pm_id = 0, name = ''api'', status = ''launching'', restarts = 2,
            cpu = 0, memory = 0 \<rparr>"

definition api1 :: proc where
  "api1 = \<lparr> pm_id = 1, name = ''api'', status = ''online'', restarts = 3,
            cpu = 3 / 2, memory = 6125 / 100 \<rparr>"

definition hog :: proc where
  "hog = \<lparr> pm_id = 7, name = ''db'', status = ''online'', restarts = 1,
           cpu = 183 / 2, memory = 2049 / 4 \<rparr>"

definition api1Again :: proc where
  "api1Again = api1\<lparr> restarts := 4 \<rparr>"

definition apiStopped :: proc where
  "apiStopped = \<lparr> pm_id = 0, name = ''api'', status = ''stopped'', restarts = 5,
                  cpu = 0, memory = 0 \<rparr>"

definition apiOnline :: proc where
  "apiOnline = \<lparr> pm_id = 0, name = ''api'', status = ''online'', restarts = 5,
                 cpu = 3 / 2, memory = 6125 / 100 \<rparr>"

definition boom :: js_error where
  "boom = \<lparr> code = None, message = ''Command failed: pm2 jlist'' \<rparr>"

definition denied :: js_error where
  "denied = \<lparr> code = Some ''EACCES'', message = ''EACCES: permission denied'' \<rparr>"

definition fetchOnlineAtSecond :: "nat \<Rightarrow> js_error + proc list" where
  "fetchOnlineAtSecond i = (if i < 2 then Inr [apiStopped] else Inr [apiOnline])"

definition fetchFaultAtSecond :: "nat \<Rightarrow> js_error + proc list" where
  "fetchFaultAtSecond i =
     (if i = 1 then Inr [apiStopped] else if i = 2 then Inl boom else Inr [apiOnline])"

definition fetchNeverOnline :: "nat \<Rightarrow> js_error + proc list" where
  "fetchNeverOnline i = Inr [apiStopped, worker, api1]"

definition fetchGone :: "nat \<Rightarrow> js_error + proc list" where
  "fetchGone i = Inr [worker]"

definition failedCall :: send_call where
  "failedCall =
     \<lparr> call_now = 1000, call_time = ''11/3/2026, 9:00:01 AM'',
       call_posted = Some \<lparr> code = Some ''ECONNRESET'', message = ''socket hang up'' \<rparr>,
       call_app = ''worker'', call_title = ''High CPU Usage'',
       call_msg = ''Instance `3` is using `85%` CPU.'', call_color = ''warning'' \<rparr>"




definition olderEntry :: history_entry where
  "olderEntry = \<lparr> timestamp = ''11/3/2026, 9:00:00 AM'', processes = [] \<rparr>"

definition oldEntry :: history_entry where
  "oldEntry = \<lparr> timestamp = ''11/3/2026, 9:01:00 AM'', processes = [worker] \<rparr>"

definition newStep :: append_step where
  "newStep = \<lparr> step_time = ''11/3/2026, 9:02:00 AM'', step_procs = [worker, api1],
               read_fault = None, write_fault = None \<rparr>"

section \<open>Numbers in messages\<close>

text \<open>An integer is printed as its decimal numeral: reading the numeral gives it back.\<close>

lemma digitChar_value: "d < 10 \<Longrightarrow> of_char (digitChar d) = (48 + d :: nat)"
proof -
  assume "d < 10"
  then have "d \<in> {0, 1, 2, 3, 4, 5, 6, 7, 8, 9}" by auto
  then show ?thesis by (auto simp: digitChar_def)
qed

lemma digitChar_not_minus: "d < 10 \<Longrightarrow> digitChar d \<noteq> CHR ''-''"
proof -
  assume "d < 10"
  then have "d \<in> {0, 1, 2, 3, 4, 5, 6, 7, 8, 9}" by auto
  then show ?thesis by (auto simp: digitChar_def)
qed

lemma readNat_snoc: "readNat (s @ [c]) = 10 * readNat s + (of_char c - 48)"
  by (simp add: readNat_def)

lemma readNat_natStr: "readNat (natStr n) = n"
proof (induction n rule: natStr.induct)
  case (1 n)
  show ?case
  proof (cases "n < 10")
    case True
    then show ?thesis
      by (subst natStr.simps) (simp add: readNat_def digitChar_value)
  next
    case False
    have "n mod 10 < 10" by simp
    with False 1 show ?thesis
      by (subst natStr.simps) (simp add: readNat_snoc digitChar_value)
  qed
qed

lemma natStr_head: "\<exists>c cs. natStr n = c # cs \<and> c \<noteq> CHR ''-''"
proof (induction n rule: natStr.induct)
  case (1 n)
  show ?case
  proof (cases "n < 10")
    case True
    then show ?thesis
      by (subst natStr.simps) (simp add: digitChar_not_minus)
  next
    case False
    with 1 obtain c cs where "natStr (n div 10) = c # cs" "c \<noteq> CHR ''-''" by blast
    with False show ?thesis
      by (subst natStr.simps) simp
  qed
qed

lemma numStr_of_int:
  "numStr (of_int i) = (if i < 0 then ''-'' else []) @ natStr (nat \<bar>i\<bar>)"
proof -
  have "\<bar>(of_int i :: rat)\<bar> = of_int \<bar>i\<bar>" by simp
  then show ?thesis
    unfolding numStr_def by (simp del: of_int_abs)
qed

lemma readInt_numStr: "readInt (numStr (of_int i)) = i"
proof -
  obtain c cs where h: "natStr (nat \<bar>i\<bar>) = c # cs" "c \<noteq> CHR ''-''"
    using natStr_head by blast
  have r: "readNat (c # cs) = nat \<bar>i\<bar>"
    using readNat_natStr[of "nat \<bar>i\<bar>"] h by simp
  show ?thesis
  proof (cases "i < 0")
    case True
    then show ?thesis
      using h r by (simp add: numStr_of_int readInt_def)
  next
    case False
    then show ?thesis
      using h r by (simp add: numStr_of_int readInt_def)
  qed
qed

section \<open>The stable-process check\<close>

lemma checkStable_filter:
  "checkStableProcesses cfg ps R = checkStableProcesses cfg (filter (\<lambda>p. name p \<notin> R) ps) R"
  by (induction ps) simp_all

lemma checkStable_subject:
  "Notify a t m c \<in> set (checkStableProcesses cfg ps R) \<Longrightarrow> a \<notin> R"
  by (induction ps) (auto split: if_splits)

lemma checkStable_evaluated:
  "p \<in> set ps \<Longrightarrow> name p \<notin> R \<Longrightarrow>
   ConsoleLog (checkLine p) \<in> set (checkStableProcesses cfg ps R)"
  by (induction ps) auto

lemma checkStable_no_restart_alert:
  "filter isRestartAlert (checkStableProcesses cfg ps R) = []"
  by (induction ps) simp_all

lemma checkStable_status_alert:
  "p \<in> set ps \<Longrightarrow> name p \<notin> R \<Longrightarrow> status p \<noteq> ''online'' \<Longrightarrow>
   Notify (name p) ''Process Status Alert''
     (''Instance `'' @ numStr (of_int (pm_id p)) @ ''` has a status of `'' @ status p @ ''`.'')
     ''danger'' \<in> set (checkStableProcesses cfg ps R)"
  by (induction ps) (auto simp: statusMessage_def)

text \<open>
  C8. The notifications \<open>checkStableProcesses\<close> attempts are, record by record and in
  order, those of the threshold evaluator as the specification words it
  (\<open>thresholdAlerts\<close>, which spells every message out), taken over the records whose name
  is not in the restarted set: for a record that is not \<open>online\<close> a
  \<open>Process Status Alert\<close> whose message holds the instance id and the status; for an
  online record a \<open>High CPU Usage\<close> warning exactly when the CPU is above its ceiling and
  a \<open>High Memory Usage\<close> warning exactly when the memory is above its ceiling, each on
  its own, so that one record gives none, either or both. The id in a message is the
  decimal numeral of \<open>pm_id\<close>: reading it gives the id back.
\<close>

theorem stable_check_alerts:
  "filter isNotify (checkStableProcesses cfg ps restartedApps) =
     concat (map (thresholdAlerts cfg) (filter (\<lambda>p. name p \<notin> restartedApps) ps)) \<and>
   (\<forall>p \<in> set ps. name p \<notin> restartedApps \<and> status p \<noteq> ''online'' \<longrightarrow>
      Notify (name p) ''Process Status Alert''
        (''Instance `'' @ numStr (of_int (pm_id p)) @ ''` has a status of `'' @ status p @ ''`.'')
        ''danger'' \<in> set (checkStableProcesses cfg ps restartedApps)) \<and>
   (\<forall>i. readInt (numStr (of_int i)) = i)"
proof (intro conjI ballI impI allI)
  show "filter isNotify (checkStableProcesses cfg ps restartedApps) =
     concat (map (thresholdAlerts cfg) (filter (\<lambda>p. name p \<notin> restartedApps) ps))"
    by (induction ps)
       (simp_all add: thresholdAlerts_def statusMessage_def cpuMessage_def memoryMessage_def)
next
  fix p assume a: "p \<in> set ps" and b: "name p \<notin> restartedApps \<and> status p \<noteq> ''online''"
  from b checkStable_status_alert[OF a, of restartedApps cfg]
  show "Notify (name p) ''Process Status Alert''
        (''Instance `'' @ numStr (of_int (pm_id p)) @ ''` has a status of `'' @ status p @ ''`.'')
        ''danger'' \<in> set (checkStableProcesses cfg ps restartedApps)"
    by blast
next
  fix i show "readInt (numStr (of_int i)) = i"
    by (rule readInt_numStr)
qed

text \<open>
  The scenario of the specification, \<open>worker\<close> at 85% CPU (ceiling 80) and 300 MB
  (ceiling 450), online: the CPU warning and nothing else. With it an instance of \<open>api\<close>
  that is launching, \<open>db\<close> above both ceilings, and a healthy instance of \<open>api\<close>.
\<close>

theorem stable_check_alerts_witness:
  "filter isNotify (checkStableProcesses exampleConfig [worker, api0, hog, api1] {}) =
     [Notify ''worker'' ''High CPU Usage'' ''Instance `3` is using `85%` CPU.'' ''warning'',
      Notify ''api'' ''Process Status Alert'' ''Instance `0` has a status of `launching`.''
        ''danger'',
      Notify ''db'' ''High CPU Usage'' ''Instance `7` is using `91.5%` CPU.'' ''warning'',
      Notify ''db'' ''High Memory Usage'' ''Instance `7` is using `512.25MB` of memory.''
        ''warning''] \<and>
   api0 \<in> set [worker, api0, hog, api1] \<and> name api0 \<notin> {} \<and> status api0 \<noteq> ''online'' \<and>
   Notify ''api'' ''Process Status Alert'' ''Instance `0` has a status of `launching`.'' ''danger''
     \<in> set (checkStableProcesses exampleConfig [worker, api0, hog, api1] {}) \<and>
   readInt ''7'' = 7"
proof -
  have n: "numStr 3 = ''3''" "numStr 0 = ''0''" "numStr 7 = ''7''" "numStr 85 = ''85''"
    "numStr (183 / 2) = ''91.5''" "numStr (2049 / 4) = ''512.25''"
    by code_simp+
  have al: "thresholdAlerts exampleConfig worker =
      [Notify ''worker'' ''High CPU Usage'' ''Instance `3` is using `85%` CPU.'' ''warning'']"
    "thresholdAlerts exampleConfig api0 =
      [Notify ''api'' ''Process Status Alert'' ''Instance `0` has a status of `launching`.''
         ''danger'']"
    "thresholdAlerts exampleConfig hog =
      [Notify ''db'' ''High CPU Usage'' ''Instance `7` is using `91.5%` CPU.'' ''warning'',
       Notify ''db'' ''High Memory Usage'' ''Instance `7` is using `512.25MB` of memory.''
         ''warning'']"
    "thresholdAlerts exampleConfig api1 = []"
    by (simp_all add: thresholdAlerts_def worker_def api0_def hog_def api1_def
          exampleConfig_def CONFIG_def n)
  have h: "api0 \<in> set [worker, api0, hog, api1]" "name api0 \<notin> {}" "status api0 \<noteq> ''online''"
    by (simp_all add: api0_def)
  have m: "name api0 = ''api''" "status api0 = ''launching''" "pm_id api0 = 0"
    by (simp_all add: api0_def)
  note T = stable_check_alerts[of exampleConfig "[worker, api0, hog, api1]" "{}"]
  have f: "filter (\<lambda>p. name p \<notin> {}) [worker, api0, hog, api1] = [worker, api0, hog, api1]"
    by simp
  have c1: "filter isNotify (checkStableProcesses exampleConfig [worker, api0, hog, api1] {}) =
     [Notify ''worker'' ''High CPU Usage'' ''Instance `3` is using `85%` CPU.'' ''warning'',
      Notify ''api'' ''Process Status Alert'' ''Instance `0` has a status of `launching`.''
        ''danger'',
      Notify ''db'' ''High CPU Usage'' ''Instance `7` is using `91.5%` CPU.'' ''warning'',
      Notify ''db'' ''High Memory Usage'' ''Instance `7` is using `512.25MB` of memory.''
        ''warning'']"
    unfolding T[THEN conjunct1] f by (simp only: list.map concat.simps al append.simps)
  have msg: "''Instance `'' @ numStr (of_int (pm_id api0)) @ ''` has a status of `'' @
      status api0 @ ''`.'' = ''Instance `0` has a status of `launching`.''"
    by (simp add: m n)
  from T[THEN conjunct2, THEN conjunct1, THEN bspec, OF h(1)] h(2,3)
  have c2: "Notify ''api'' ''Process Status Alert'' ''Instance `0` has a status of `launching`.''
      ''danger'' \<in> set (checkStableProcesses exampleConfig [worker, api0, hog, api1] {})"
    unfolding msg m(1) by blast
  have "numStr (of_int 7) = ''7''" by (simp add: n)
  with T[THEN conjunct2, THEN conjunct2, THEN spec, of 7] have c3: "readInt ''7'' = 7"
    by (simp only:)
  from c1 c2 c3 h show ?thesis by blast
qed

section \<open>Restart detection\<close>

lemma totalRestarts_Cons:
  "totalRestarts n (p # ps) = (if name p = n then restarts p else 0) + totalRestarts n ps"
  by (simp add: totalRestarts_def)

lemma totalRestarts_absent: "n \<notin> name ` set ps \<Longrightarrow> totalRestarts n ps = 0"
  by (induction ps) (auto simp: totalRestarts_def)

lemma totalRestarts_pos: "0 < totalRestarts n ps \<Longrightarrow> n \<in> name ` set ps"
  unfolding totalRestarts_def by (induction ps) (auto split: if_splits)

text \<open>The first loop: every name once, in order of first sight, with the sum of its counts.\<close>

lemma sumRestartsByApp_keys:
  "distinct (map fst acc) \<Longrightarrow> distinct (map fst (sumRestartsByApp ps acc))"
  by (induction ps arbitrary: acc) (simp_all add: Let_def distinct_update)

lemma sumRestartsByApp_lookup:
  "map_of (sumRestartsByApp ps acc) n =
     (if n \<in> name ` set ps \<or> n \<in> fst ` set acc
      then Some ((case map_of acc n of None \<Rightarrow> 0 | Some c \<Rightarrow> c) + totalRestarts n ps)
      else None)"
proof (induction ps arbitrary: acc)
  case Nil
  then show ?case
    by (auto simp: totalRestarts_def map_of_eq_None_iff split: option.splits)
next
  case (Cons p ps)
  show ?case
    by (auto simp: Cons.IH Let_def totalRestarts_def update_conv' dom_update
             map_of_eq_None_iff split: option.splits)
qed

text \<open>
  The second loop, over entries with distinct keys: no entry reads a total that an earlier
  entry of the same loop wrote.
\<close>

lemma handleRestarts_spec:
  "distinct (map fst entries) \<Longrightarrow> handleRestarts cfg h entries = (R, h', es) \<Longrightarrow>
     (n \<in> R \<longleftrightarrow> (\<exists>t prev. map_of entries n = Some t \<and> h n = Some prev \<and> prev < t)) \<and>
     h' n = (case map_of entries n of None \<Rightarrow> h n | Some t \<Rightarrow> Some t) \<and>
     length (filter (isRestartNotice n) es) = (if n \<in> R then 1 else 0) \<and>
     count_list es (StartPolling n) = (if n \<in> R then 1 else 0) \<and>
     (\<forall>a t m c. Notify a t m c \<in> set es \<longrightarrow>
        a \<in> R \<and> t = ''Process Restart Detected'' \<and> m = restartMessage cfg a \<and> c = ''warning'') \<and>
     (n \<in> R \<longrightarrow> Notify n ''Process Restart Detected'' (restartMessage cfg n) ''warning'' \<in> set es)"
proof (induction entries arbitrary: h R h' es)
  case Nil
  then show ?case by auto
next
  case (Cons e entries)
  obtain a t where e: "e = (a, t)" by (cases e)
  obtain R1 h1 es1 where rec: "handleRestarts cfg (h(a \<mapsto> t)) entries = (R1, h1, es1)"
    by (cases "handleRestarts cfg (h(a \<mapsto> t)) entries")
  from Cons.prems(1) e have d: "distinct (map fst entries)" and na: "a \<notin> fst ` set entries"
    by auto
  from na have none: "map_of entries a = None"
    by (simp add: map_of_eq_None_iff)
  note IH = Cons.IH[OF d rec]
  show ?case
  proof (cases "case h a of None \<Rightarrow> False | Some prev \<Rightarrow> prev < t")
    case True
    with Cons.prems(2) e rec have eqs: "R = insert a R1" "h' = h1"
      "es = Notify a ''Process Restart Detected'' (restartMessage cfg a) ''warning'' #
            StartPolling a # es1"
      by auto
    show ?thesis
      using IH True none unfolding eqs e
      by (cases "n = a") (auto split: option.splits)
  next
    case False
    with Cons.prems(2) e rec have eqs: "R = R1" "h' = h1" "es = es1"
      by auto
    show ?thesis
      using IH False none unfolding eqs e
      by (cases "n = a") (auto split: option.splits)
  qed
qed

lemma handleRestarts_quiet:
  "handleRestarts cfg h entries = (R, h', es) \<Longrightarrow> R = {} \<Longrightarrow> es = []"
  by (induction entries arbitrary: h R h' es)
     (auto simp: Let_def split: prod.splits if_splits option.splits)

lemma detect_spec:
  assumes "detectAndHandleRestarts cfg h ps = (R, h', es)"
  shows "(n \<in> R \<longleftrightarrow> n \<in> name ` set ps \<and> (\<exists>prev. h n = Some prev \<and> prev < totalRestarts n ps))"
    and "h' n = (if n \<in> name ` set ps then Some (totalRestarts n ps) else h n)"
    and "length (filter (isRestartNotice n) es) = (if n \<in> R then 1 else 0)"
    and "count_list es (StartPolling n) = (if n \<in> R then 1 else 0)"
    and "Notify a t m c \<in> set es \<Longrightarrow> a \<in> R"
    and "n \<in> R \<Longrightarrow>
         Notify n ''Process Restart Detected'' (restartMessage cfg n) ''warning'' \<in> set es"
proof -
  have d: "distinct (map fst (sumRestartsByApp ps []))"
    by (rule sumRestartsByApp_keys) simp
  have l: "map_of (sumRestartsByApp ps []) n =
      (if n \<in> name ` set ps then Some (totalRestarts n ps) else None)"
    by (simp add: sumRestartsByApp_lookup)
  from assms have hr: "handleRestarts cfg h (sumRestartsByApp ps []) = (R, h', es)"
    by (simp add: detectAndHandleRestarts_def)
  note S = handleRestarts_spec[OF d hr, of n]
  show "(n \<in> R \<longleftrightarrow> n \<in> name ` set ps \<and> (\<exists>prev. h n = Some prev \<and> prev < totalRestarts n ps))"
    using S l by (auto split: if_splits)
  show "h' n = (if n \<in> name ` set ps then Some (totalRestarts n ps) else h n)"
    using S l by (auto split: if_splits)
  show "length (filter (isRestartNotice n) es) = (if n \<in> R then 1 else 0)"
    using S by blast
  show "count_list es (StartPolling n) = (if n \<in> R then 1 else 0)"
    using S by blast
  show "Notify a t m c \<in> set es \<Longrightarrow> a \<in> R"
    using handleRestarts_spec[OF d hr] by blast
  show "n \<in> R \<Longrightarrow>
        Notify n ''Process Restart Detected'' (restartMessage cfg n) ''warning'' \<in> set es"
    using S by blast
qed

lemma detect_polling:
  assumes "detectAndHandleRestarts cfg h ps = (R, h', es)"
  shows "StartPolling n \<in> set es \<longleftrightarrow> n \<in> R"
  using detect_spec(4)[OF assms, of n] count_list_0_iff[of es "StartPolling n"]
  by (cases "n \<in> R") auto

text \<open>The rest of a cycle adds no restart notice and starts no polling.\<close>

lemma checkStable_no_restart_notice:
  "filter (isRestartNotice n) (checkStableProcesses cfg ps R) = [] \<and>
   count_list (checkStableProcesses cfg ps R) (StartPolling n) = 0"
  by (induction ps) simp_all

lemma logStatus_no_restart_notice:
  "logStatusToFile cfg rd wr now ps = (r, w, es) \<Longrightarrow>
   filter (isRestartNotice n) es = [] \<and> count_list es (StartPolling n) = 0"
  by (auto simp: logStatusToFile_def Let_def split: read_outcome.splits option.splits if_splits)

lemma monitor_cycle:
  assumes "detectAndHandleRestarts cfg h ps = (R, h', es)"
  shows "fst (monitorProcesses cfg h (Inr ps) rd wr now) = h' \<and>
         filter (isRestartNotice n) (snd (snd (monitorProcesses cfg h (Inr ps) rd wr now))) =
           filter (isRestartNotice n) es \<and>
         count_list (snd (snd (monitorProcesses cfg h (Inr ps) rd wr now))) (StartPolling n) =
           count_list es (StartPolling n)"
proof -
  obtain r w es3 where l: "logStatusToFile cfg rd wr now ps = (r, w, es3)"
    by (cases "logStatusToFile cfg rd wr now ps")
  from logStatus_no_restart_notice[OF l]
  have q1: "filter (isRestartNotice n) es3 = []" "count_list es3 (StartPolling n) = 0"
    by simp_all
  have q2: "filter (isRestartNotice n) (checkStableProcesses cfg ps R) = []"
    "count_list (checkStableProcesses cfg ps R) (StartPolling n) = 0"
    by (simp_all add: checkStable_no_restart_notice)
  show ?thesis
    using assms l q1 q2 by (cases r) (simp_all add: monitorProcesses_def Let_def)
qed

text \<open>
  C1. In a cycle, for a name whose aggregated restart count (the sum of \<open>restarts\<close> over
  the instances of that name in the snapshot) is strictly greater than the total stored
  for it: the detector puts the name in the restarted set, makes exactly one notification
  attempt with the title \<open>Process Restart Detected\<close> for it, starts stabilization polling
  for it (once), and stores the current total. The rest of the cycle adds no such
  notification and no polling, and leaves the stored total as the detector set it.
\<close>

theorem restart_detected:
  assumes "appRestartHistory n = Some prev" and "prev < totalRestarts n ps"
  shows "(case detectAndHandleRestarts cfg appRestartHistory ps of
            (restartedApps, history', effects) \<Rightarrow>
              n \<in> restartedApps \<and>
              length (filter (isRestartNotice n) effects) = 1 \<and>
              Notify n ''Process Restart Detected'' (restartMessage cfg n) ''warning''
                \<in> set effects \<and>
              count_list effects (StartPolling n) = 1 \<and>
              history' n = Some (totalRestarts n ps)) \<and>
         (case monitorProcesses cfg appRestartHistory (Inr ps) fileRead wrote now of
            (history', written, effects) \<Rightarrow>
              length (filter (isRestartNotice n) effects) = 1 \<and>
              count_list effects (StartPolling n) = 1 \<and>
              history' n = Some (totalRestarts n ps))"
proof -
  obtain R h' es where d: "detectAndHandleRestarts cfg appRestartHistory ps = (R, h', es)"
    by (cases "detectAndHandleRestarts cfg appRestartHistory ps")
  from assms(2) have "0 < totalRestarts n ps" by simp
  then have mem: "n \<in> name ` set ps" by (rule totalRestarts_pos)
  with assms detect_spec(1)[OF d, of n] have r: "n \<in> R" by simp
  have one: "length (filter (isRestartNotice n) es) = 1" "count_list es (StartPolling n) = 1"
    and tot: "h' n = Some (totalRestarts n ps)"
    using r mem detect_spec(2,3,4)[OF d, of n] by simp_all
  have first: "case detectAndHandleRestarts cfg appRestartHistory ps of
            (restartedApps, history', effects) \<Rightarrow>
              n \<in> restartedApps \<and>
              length (filter (isRestartNotice n) effects) = 1 \<and>
              Notify n ''Process Restart Detected'' (restartMessage cfg n) ''warning''
                \<in> set effects \<and>
              count_list effects (StartPolling n) = 1 \<and>
              history' n = Some (totalRestarts n ps)"
    using d r one tot detect_spec(6)[OF d r] by simp
  obtain hc wc ec where
    m: "monitorProcesses cfg appRestartHistory (Inr ps) fileRead wrote now = (hc, wc, ec)"
    by (cases "monitorProcesses cfg appRestartHistory (Inr ps) fileRead wrote now")
  from monitor_cycle[OF d, where rd = fileRead and wr = wrote and now = now and n = n] m one tot
  have second: "length (filter (isRestartNotice n) ec) = 1 \<and>
      count_list ec (StartPolling n) = 1 \<and> hc n = Some (totalRestarts n ps)"
    by simp
  from first second m show ?thesis by simp
qed

text \<open>
  The clustered app \<open>api\<close> with stored total 3 and instances now at 2 and 3 restarts.
\<close>

theorem restart_detected_witness:
  "[''api'' \<mapsto> 3::nat] ''api'' = Some 3 \<and>
   3 < totalRestarts ''api'' [api0, worker, api1] \<and>
   (case detectAndHandleRestarts exampleConfig [''api'' \<mapsto> 3] [api0, worker, api1] of
      (restartedApps, history', effects) \<Rightarrow>
        ''api'' \<in> restartedApps \<and>
        length (filter (isRestartNotice ''api'') effects) = 1 \<and>
        Notify ''api'' ''Process Restart Detected'' (restartMessage exampleConfig ''api'') ''warning''
          \<in> set effects \<and>
        count_list effects (StartPolling ''api'') = 1 \<and>
        history' ''api'' = Some 5) \<and>
   (case monitorProcesses exampleConfig [''api'' \<mapsto> 3] (Inr [api0, worker, api1])
           (Parsed []) None ''11/3/2026, 9:00:00 AM'' of
      (history', written, effects) \<Rightarrow>
        length (filter (isRestartNotice ''api'') effects) = 1 \<and>
        count_list effects (StartPolling ''api'') = 1 \<and>
        history' ''api'' = Some 5)"
proof -
  have h1: "[''api'' \<mapsto> 3::nat] ''api'' = Some 3" by simp
  have t: "totalRestarts ''api'' [api0, worker, api1] = 5"
    by (simp add: totalRestarts_def api0_def api1_def worker_def)
  have h2: "3 < totalRestarts ''api'' [api0, worker, api1]" by (simp add: t)
  note T = restart_detected[where appRestartHistory = "[''api'' \<mapsto> 3]" and n = "''api''"
        and prev = 3 and ps = "[api0, worker, api1]" and cfg = exampleConfig
        and fileRead = "Parsed []" and wrote = None and now = "''11/3/2026, 9:00:00 AM''",
        OF h1 h2, unfolded t]
  from h1 h2 T show ?thesis by blast
qed

section \<open>First sight of a name, and the seeding at startup\<close>

lemma seedRestartHistory_lookup:
  "seedRestartHistory ps h n =
     (if n \<in> name ` set ps
      then Some ((case h n of None \<Rightarrow> 0 | Some c \<Rightarrow> c) + totalRestarts n ps)
      else h n)"
proof (induction ps arbitrary: h)
  case Nil
  then show ?case by (simp add: totalRestarts_def)
next
  case (Cons p ps)
  show ?case
    by (cases "name p = n"; cases "n \<in> name ` set ps")
       (auto simp: Cons.IH Let_def totalRestarts_Cons totalRestarts_absent split: option.splits)
qed

lemma logStatus_no_restart_alert:
  "logStatusToFile cfg rd wr now ps = (r, w, es) \<Longrightarrow> filter isRestartAlert es = []"
  by (auto simp: logStatusToFile_def Let_def split: read_outcome.splits option.splits if_splits)

lemma monitor_restart_alerts:
  assumes "detectAndHandleRestarts cfg h ps = (R, h', es)"
  shows "filter isRestartAlert (snd (snd (monitorProcesses cfg h (Inr ps) rd wr now))) =
         filter isRestartAlert es"
proof -
  obtain r w es3 where l: "logStatusToFile cfg rd wr now ps = (r, w, es3)"
    by (cases "logStatusToFile cfg rd wr now ps")
  show ?thesis
    using assms l logStatus_no_restart_alert[OF l]
    by (cases r) (simp_all add: monitorProcesses_def Let_def checkStable_no_restart_alert)
qed

lemma initialize_restart_alerts:
  "filter isRestartAlert (snd (initialize cfg (Inr initialProcs) snapshot rd wr now)) =
     (if (case SLACK_WEBHOOK_URL cfg of None \<Rightarrow> True
          | Some url \<Rightarrow> url = [] \<or> \<not> prefix ''https://hooks.slack.com/'' url)
      then []
      else filter isRestartAlert
             (snd (snd (monitorProcesses cfg (seedRestartHistory initialProcs Map.empty) snapshot rd wr now))))"
  by (simp add: initialize_def Let_def split: prod.splits)

lemma initialize_running:
  assumes "case SLACK_WEBHOOK_URL cfg of
             None \<Rightarrow> False
           | Some url \<Rightarrow> prefix ''https://hooks.slack.com/'' url"
  shows "case monitorProcesses cfg (seedRestartHistory initialProcs Map.empty)
                snapshot rd wr now of
           (h', w, es) \<Rightarrow>
             fst (initialize cfg (Inr initialProcs) snapshot rd wr now) = Running h' w \<and>
             suffix es (snd (initialize cfg (Inr initialProcs) snapshot rd wr now))"
proof -
  from assms obtain url where u: "SLACK_WEBHOOK_URL cfg = Some url"
    "prefix ''https://hooks.slack.com/'' url"
    by (cases "SLACK_WEBHOOK_URL cfg") auto
  from u(2) have "url \<noteq> []" by auto
  with u show ?thesis
    by (auto simp: initialize_def Let_def suffix_def split: prod.splits)
qed

lemma restart_alerts_count:
  "count_list xs (StartPolling n) = count_list (filter isRestartAlert xs) (StartPolling n) \<and>
   filter (isRestartNotice n) xs = filter (isRestartNotice n) (filter isRestartAlert xs)"
proof (induction xs)
  case Nil
  then show ?case by simp
next
  case (Cons e xs)
  then show ?case by (cases e) auto
qed

lemma initialize_detects_growth:
  assumes valid: "case SLACK_WEBHOOK_URL cfg of
             None \<Rightarrow> False
           | Some url \<Rightarrow> prefix ''https://hooks.slack.com/'' url"
    and mem: "n \<in> name ` set initialProcs"
    and grown: "totalRestarts n initialProcs < totalRestarts n ps"
  shows "count_list (snd (initialize cfg (Inr initialProcs) (Inr ps) rd wr now)) (StartPolling n) = 1 \<and>
         length (filter (isRestartNotice n)
                   (snd (initialize cfg (Inr initialProcs) (Inr ps) rd wr now))) = 1"
proof -
  let ?h = "seedRestartHistory initialProcs Map.empty"
  obtain R h' es where d: "detectAndHandleRestarts cfg ?h ps = (R, h', es)"
    by (cases "detectAndHandleRestarts cfg ?h ps")
  from valid obtain url where u: "SLACK_WEBHOOK_URL cfg = Some url"
    "prefix ''https://hooks.slack.com/'' url"
    by (cases "SLACK_WEBHOOK_URL cfg") auto
  from u(2) have "url \<noteq> []" by auto
  with u have alerts:
    "filter isRestartAlert (snd (initialize cfg (Inr initialProcs) (Inr ps) rd wr now)) =
     filter isRestartAlert es"
    using monitor_restart_alerts[OF d, of rd wr now]
    by (simp add: initialize_restart_alerts)
  from grown have "0 < totalRestarts n ps" by simp
  then have "n \<in> name ` set ps" by (rule totalRestarts_pos)
  moreover from mem have "?h n = Some (totalRestarts n initialProcs)"
    by (simp add: seedRestartHistory_lookup)
  ultimately have r: "n \<in> R"
    using detect_spec(1)[OF d, of n] grown by simp
  with detect_spec(3,4)[OF d, of n]
  have one: "length (filter (isRestartNotice n) es) = 1" "count_list es (StartPolling n) = 1"
    by simp_all
  show ?thesis
    using one alerts
      restart_alerts_count[of "snd (initialize cfg (Inr initialProcs) (Inr ps) rd wr now)" n]
      restart_alerts_count[of es n]
    by simp
qed

text \<open>
  C6. For a name that has no stored restart total and occurs in the snapshot, the detector
  stores the current aggregated total, does not put the name in the restarted set, and
  attempts no notification and starts no polling for it. At startup \<open>initialize\<close> (with
  a valid webhook URL and an initial snapshot) seeds the restart history, from the empty
  map, with the aggregated total of every name of its initial snapshot, and only then
  runs the first cycle: what it returns is the outcome of \<open>monitorProcesses\<close> on the
  seeded history, and its effects end with that cycle's effects. So when no name of the
  initial snapshot has a greater total in the snapshot of the first cycle, that cycle
  detects no restart: the restarted set is empty, the detector does nothing, and nothing
  \<open>initialize\<close> does is a \<open>Process Restart Detected\<close> notification or a start of
  polling; and when a name of the initial snapshot does have a greater total there, the
  first cycle detects it: one restart notice and one start of polling for that name.
\<close>

theorem first_sight_and_seed:
  "(appRestartHistory n = None \<and> n \<in> name ` set ps \<longrightarrow>
      (case detectAndHandleRestarts cfg appRestartHistory ps of
         (restartedApps, history', effects) \<Rightarrow>
           history' n = Some (totalRestarts n ps) \<and> n \<notin> restartedApps \<and>
           (\<forall>t m c. Notify n t m c \<notin> set effects) \<and> StartPolling n \<notin> set effects)) \<and>
   seedRestartHistory initialProcs Map.empty n =
     (if n \<in> name ` set initialProcs then Some (totalRestarts n initialProcs) else None) \<and>
   ((\<forall>a \<in> name ` set initialProcs. totalRestarts a ps \<le> totalRestarts a initialProcs) \<longrightarrow>
      fst (detectAndHandleRestarts cfg (seedRestartHistory initialProcs Map.empty) ps) = {} \<and>
      snd (snd (detectAndHandleRestarts cfg (seedRestartHistory initialProcs Map.empty) ps)) = [] \<and>
      filter isRestartAlert (snd (initialize cfg (Inr initialProcs) (Inr ps) fileRead wrote now)) = []) \<and>
   ((case SLACK_WEBHOOK_URL cfg of
       None \<Rightarrow> False
     | Some url \<Rightarrow> prefix ''https://hooks.slack.com/'' url) \<longrightarrow>
      (case monitorProcesses cfg (seedRestartHistory initialProcs Map.empty)
              snapshot fileRead wrote now of
         (history', written, effects) \<Rightarrow>
           fst (initialize cfg (Inr initialProcs) snapshot fileRead wrote now) =
             Running history' written \<and>
           suffix effects (snd (initialize cfg (Inr initialProcs) snapshot fileRead wrote now))) \<and>
      (n \<in> name ` set initialProcs \<and> totalRestarts n initialProcs < totalRestarts n ps \<longrightarrow>
         count_list (snd (initialize cfg (Inr initialProcs) (Inr ps) fileRead wrote now))
           (StartPolling n) = 1 \<and>
         length (filter (isRestartNotice n)
                   (snd (initialize cfg (Inr initialProcs) (Inr ps) fileRead wrote now))) = 1))"
proof -
  have a: "appRestartHistory n = None \<and> n \<in> name ` set ps \<longrightarrow>
      (case detectAndHandleRestarts cfg appRestartHistory ps of
         (restartedApps, history', effects) \<Rightarrow>
           history' n = Some (totalRestarts n ps) \<and> n \<notin> restartedApps \<and>
           (\<forall>t m c. Notify n t m c \<notin> set effects) \<and> StartPolling n \<notin> set effects)"
  proof
    assume a: "appRestartHistory n = None \<and> n \<in> name ` set ps"
    obtain R h' es where d: "detectAndHandleRestarts cfg appRestartHistory ps = (R, h', es)"
      by (cases "detectAndHandleRestarts cfg appRestartHistory ps")
    from a detect_spec(1)[OF d, of n] have nr: "n \<notin> R" by simp
    from nr detect_spec(5)[OF d] have nn: "\<forall>t m c. Notify n t m c \<notin> set es" by blast
    from nr detect_polling[OF d, of n] have np: "StartPolling n \<notin> set es" by simp
    from a detect_spec(2)[OF d, of n] have "h' n = Some (totalRestarts n ps)" by simp
    with nr nn np d
    show "case detectAndHandleRestarts cfg appRestartHistory ps of
           (restartedApps, history', effects) \<Rightarrow>
             history' n = Some (totalRestarts n ps) \<and> n \<notin> restartedApps \<and>
             (\<forall>t m c. Notify n t m c \<notin> set effects) \<and> StartPolling n \<notin> set effects"
      by simp
  qed
  have b: "seedRestartHistory initialProcs Map.empty n =
     (if n \<in> name ` set initialProcs then Some (totalRestarts n initialProcs) else None)"
    by (simp add: seedRestartHistory_lookup)
  have c: "(\<forall>a \<in> name ` set initialProcs. totalRestarts a ps \<le> totalRestarts a initialProcs) \<longrightarrow>
      fst (detectAndHandleRestarts cfg (seedRestartHistory initialProcs Map.empty) ps) = {} \<and>
      snd (snd (detectAndHandleRestarts cfg (seedRestartHistory initialProcs Map.empty) ps)) = [] \<and>
      filter isRestartAlert (snd (initialize cfg (Inr initialProcs) (Inr ps) fileRead wrote now)) = []"
  proof
    assume le: "\<forall>a \<in> name ` set initialProcs. totalRestarts a ps \<le> totalRestarts a initialProcs"
    obtain R h' es where d:
      "detectAndHandleRestarts cfg (seedRestartHistory initialProcs Map.empty) ps = (R, h', es)"
      by (cases "detectAndHandleRestarts cfg (seedRestartHistory initialProcs Map.empty) ps")
    have "a \<notin> R" for a
      using detect_spec(1)[OF d, of a] le
      by (auto simp: seedRestartHistory_lookup split: if_splits)
    then have R: "R = {}" by blast
    from d have "handleRestarts cfg (seedRestartHistory initialProcs Map.empty)
        (sumRestartsByApp ps []) = (R, h', es)"
      by (simp add: detectAndHandleRestarts_def)
    from handleRestarts_quiet[OF this R] have es: "es = []" .
    show "fst (detectAndHandleRestarts cfg (seedRestartHistory initialProcs Map.empty) ps) = {} \<and>
      snd (snd (detectAndHandleRestarts cfg (seedRestartHistory initialProcs Map.empty) ps)) = [] \<and>
      filter isRestartAlert (snd (initialize cfg (Inr initialProcs) (Inr ps) fileRead wrote now)) = []"
      using d R es monitor_restart_alerts[OF d, of fileRead wrote now]
      by (simp add: initialize_restart_alerts)
  qed
  have e: "(case SLACK_WEBHOOK_URL cfg of
       None \<Rightarrow> False
     | Some url \<Rightarrow> prefix ''https://hooks.slack.com/'' url) \<longrightarrow>
      (case monitorProcesses cfg (seedRestartHistory initialProcs Map.empty)
              snapshot fileRead wrote now of
         (history', written, effects) \<Rightarrow>
           fst (initialize cfg (Inr initialProcs) snapshot fileRead wrote now) =
             Running history' written \<and>
           suffix effects (snd (initialize cfg (Inr initialProcs) snapshot fileRead wrote now))) \<and>
      (n \<in> name ` set initialProcs \<and> totalRestarts n initialProcs < totalRestarts n ps \<longrightarrow>
         count_list (snd (initialize cfg (Inr initialProcs) (Inr ps) fileRead wrote now))
           (StartPolling n) = 1 \<and>
         length (filter (isRestartNotice n)
                   (snd (initialize cfg (Inr initialProcs) (Inr ps) fileRead wrote now))) = 1)"
  proof
    assume v: "case SLACK_WEBHOOK_URL cfg of
       None \<Rightarrow> False
     | Some url \<Rightarrow> prefix ''https://hooks.slack.com/'' url"
    have e1: "case monitorProcesses cfg (seedRestartHistory initialProcs Map.empty)
              snapshot fileRead wrote now of
         (history', written, effects) \<Rightarrow>
           fst (initialize cfg (Inr initialProcs) snapshot fileRead wrote now) =
             Running history' written \<and>
           suffix effects (snd (initialize cfg (Inr initialProcs) snapshot fileRead wrote now))"
      by (rule initialize_running[OF v])
    have e2: "n \<in> name ` set initialProcs \<and> totalRestarts n initialProcs < totalRestarts n ps \<longrightarrow>
         count_list (snd (initialize cfg (Inr initialProcs) (Inr ps) fileRead wrote now))
           (StartPolling n) = 1 \<and>
         length (filter (isRestartNotice n)
                   (snd (initialize cfg (Inr initialProcs) (Inr ps) fileRead wrote now))) = 1"
      using initialize_detects_growth[OF v, where rd = fileRead and wr = wrote and now = now]
      by blast
    from e1 e2 show "(case monitorProcesses cfg (seedRestartHistory initialProcs Map.empty)
              snapshot fileRead wrote now of
         (history', written, effects) \<Rightarrow>
           fst (initialize cfg (Inr initialProcs) snapshot fileRead wrote now) =
             Running history' written \<and>
           suffix effects (snd (initialize cfg (Inr initialProcs) snapshot fileRead wrote now))) \<and>
      (n \<in> name ` set initialProcs \<and> totalRestarts n initialProcs < totalRestarts n ps \<longrightarrow>
         count_list (snd (initialize cfg (Inr initialProcs) (Inr ps) fileRead wrote now))
           (StartPolling n) = 1 \<and>
         length (filter (isRestartNotice n)
                   (snd (initialize cfg (Inr initialProcs) (Inr ps) fileRead wrote now))) = 1)"
      by (rule conjI)
  qed
  from a b c e show ?thesis by (intro conjI)
qed

text \<open>
  The monitor starts while \<open>api\<close> already counts 2 + 3 restarts. A first cycle that sees
  the same counts raises nothing; one that sees 2 + 4 detects the restart. Before that,
  \<open>api\<close> is new to an empty history.
\<close>

theorem first_sight_and_seed_witness:
  "(Map.empty :: string \<rightharpoonup> nat) ''api'' = None \<and> ''api'' \<in> name ` set [api0, worker, api1] \<and>
   (case detectAndHandleRestarts exampleConfig Map.empty [api0, worker, api1] of
      (restartedApps, history', effects) \<Rightarrow>
        history' ''api'' = Some 5 \<and> ''api'' \<notin> restartedApps \<and> StartPolling ''api'' \<notin> set effects) \<and>
   seedRestartHistory [api0, worker, api1] Map.empty ''api'' = Some 5 \<and>
   fst (detectAndHandleRestarts exampleConfig
          (seedRestartHistory [api0, worker, api1] Map.empty) [api0, worker, api1]) = {} \<and>
   filter isRestartAlert
     (snd (initialize exampleConfig (Inr [api0, worker, api1]) (Inr [api0, worker, api1])
             (Parsed []) None ''11/3/2026, 9:00:00 AM'')) = [] \<and>
   totalRestarts ''api'' [api0, worker, api1] < totalRestarts ''api'' [api0, worker, api1Again] \<and>
   count_list
     (snd (initialize exampleConfig (Inr [api0, worker, api1]) (Inr [api0, worker, api1Again])
             (Parsed []) None ''11/3/2026, 9:00:00 AM''))
     (StartPolling ''api'') = 1"
proof -
  have h1: "(Map.empty :: string \<rightharpoonup> nat) ''api'' = None \<and> ''api'' \<in> name ` set [api0, worker, api1]"
    by (simp add: api0_def)
  have h2: "\<forall>a \<in> name ` set [api0, worker, api1].
      totalRestarts a [api0, worker, api1] \<le> totalRestarts a [api0, worker, api1]"
    by simp
  have t: "totalRestarts ''api'' [api0, worker, api1] = 5"
    "totalRestarts ''api'' [api0, worker, api1Again] = 6"
    by (simp_all add: totalRestarts_def api0_def api1_def api1Again_def worker_def)
  have v: "case SLACK_WEBHOOK_URL exampleConfig of
       None \<Rightarrow> False
     | Some url \<Rightarrow> prefix ''https://hooks.slack.com/'' url"
    by (simp add: exampleConfig_def CONFIG_def)
  have g: "''api'' \<in> name ` set [api0, worker, api1] \<and>
      totalRestarts ''api'' [api0, worker, api1] < totalRestarts ''api'' [api0, worker, api1Again]"
    using h1 by (simp add: t)
  note T = first_sight_and_seed[where appRestartHistory = Map.empty and n = "''api''"
      and ps = "[api0, worker, api1]" and initialProcs = "[api0, worker, api1]"
      and cfg = exampleConfig and fileRead = "Parsed []" and wrote = None
      and now = "''11/3/2026, 9:00:00 AM''"]
  note A = T[THEN conjunct1, THEN mp, OF h1]
  note B = T[THEN conjunct2, THEN conjunct1]
  note C = T[THEN conjunct2, THEN conjunct2, THEN conjunct1, THEN mp, OF h2]
  note T2 = first_sight_and_seed[where n = "''api''"
      and ps = "[api0, worker, api1Again]" and initialProcs = "[api0, worker, api1]"
      and cfg = exampleConfig and fileRead = "Parsed []" and wrote = None
      and now = "''11/3/2026, 9:00:00 AM''"]
  note D = T2[THEN conjunct2, THEN conjunct2, THEN conjunct2, THEN mp, OF v,
      THEN conjunct2, THEN mp, OF g, THEN conjunct1]
  from A have c1: "case detectAndHandleRestarts exampleConfig Map.empty [api0, worker, api1] of
      (restartedApps, history', effects) \<Rightarrow>
        history' ''api'' = Some 5 \<and> ''api'' \<notin> restartedApps \<and> StartPolling ''api'' \<notin> set effects"
    by (simp add: t split: prod.splits)
  from B h1 have c2: "seedRestartHistory [api0, worker, api1] Map.empty ''api'' = Some 5"
    by (simp add: t)
  from C have c3: "fst (detectAndHandleRestarts exampleConfig
          (seedRestartHistory [api0, worker, api1] Map.empty) [api0, worker, api1]) = {} \<and>
      filter isRestartAlert
        (snd (initialize exampleConfig (Inr [api0, worker, api1]) (Inr [api0, worker, api1])
             (Parsed []) None ''11/3/2026, 9:00:00 AM'')) = []"
    by blast
  from h1 c1 c2 c3 g D show ?thesis by blast
qed

section \<open>Restarted or checked, never both\<close>

lemma handleRestarts_no_log:
  "handleRestarts cfg h entries = (R, h', es) \<Longrightarrow> filter isConsoleLog es = []"
  by (induction entries arbitrary: h R h' es)
     (auto simp: Let_def split: prod.splits if_splits option.splits)

lemma detect_titles:
  assumes "detectAndHandleRestarts cfg h ps = (R, h', es)"
    and "Notify a t m c \<in> set es"
  shows "t = ''Process Restart Detected''"
proof -
  have d: "distinct (map fst (sumRestartsByApp ps []))"
    by (rule sumRestartsByApp_keys) simp
  from assms(1) have hr: "handleRestarts cfg h (sumRestartsByApp ps []) = (R, h', es)"
    by (simp add: detectAndHandleRestarts_def)
  from handleRestarts_spec[OF d hr] assms(2) show ?thesis by blast
qed

lemma checkStable_logs:
  "length (filter isConsoleLog (checkStableProcesses cfg ps R)) =
   length (filter (\<lambda>p. name p \<notin> R) ps)"
  by (induction ps) simp_all

lemma checkStable_any_set:
  "checkStableProcesses cfg (filter (\<lambda>p. name p \<notin> R) ps) R =
   checkStableProcesses cfg (filter (\<lambda>p. name p \<notin> R) ps) {}"
  by (induction ps) simp_all

lemma logStatus_aftermath:
  "logStatusToFile cfg rd wr now ps = (r, w, es) \<Longrightarrow> list_all isAftermath es"
  by (auto simp: logStatusToFile_def Let_def split: read_outcome.splits option.splits if_splits)

lemma aftermath_facts:
  "list_all isAftermath rest \<Longrightarrow>
     filter isConsoleLog rest = [] \<and> StartPolling n \<notin> set rest \<and>
     (\<forall>a t m c. Notify a t m c \<in> set rest \<longrightarrow>
        a = ''PM2 Monitor'' \<and> t = ''Monitoring Script Error'')"
proof (induction rest)
  case Nil
  then show ?case by simp
next
  case (Cons e rest)
  then show ?case by (cases e) auto
qed

lemma monitor_effects:
  assumes "detectAndHandleRestarts cfg h ps = (R, h', es)"
  shows "\<exists>rest. snd (snd (monitorProcesses cfg h (Inr ps) rd wr now)) =
           es @ checkStableProcesses cfg ps R @ rest \<and> list_all isAftermath rest"
proof -
  obtain r w es3 where l: "logStatusToFile cfg rd wr now ps = (r, w, es3)"
    by (cases "logStatusToFile cfg rd wr now ps")
  note a = logStatus_aftermath[OF l]
  show ?thesis
  proof (cases "ENABLED (WEB_SERVER cfg)")
    case False
    with assms have "snd (snd (monitorProcesses cfg h (Inr ps) rd wr now)) =
        es @ checkStableProcesses cfg ps R @ []"
      by (simp add: monitorProcesses_def Let_def)
    then show ?thesis by (intro exI[of _ "[]"]) simp
  next
    case True
    show ?thesis
    proof (cases r)
      case (Inl error)
      with True assms l have "snd (snd (monitorProcesses cfg h (Inr ps) rd wr now)) =
          es @ checkStableProcesses cfg ps R @
          (es3 @ [ConsoleError (''[Error] Failed to run monitoring cycle: '' @ message error),
                  Notify ''PM2 Monitor'' ''Monitoring Script Error'' (message error) ''danger''])"
        by (simp add: monitorProcesses_def Let_def)
      with a show ?thesis
        by (intro exI[of _ "es3 @ [ConsoleError (''[Error] Failed to run monitoring cycle: '' @ message error),
                  Notify ''PM2 Monitor'' ''Monitoring Script Error'' (message error) ''danger'']"])
           simp
    next
      case (Inr u)
      with True assms l have "snd (snd (monitorProcesses cfg h (Inr ps) rd wr now)) =
          es @ checkStableProcesses cfg ps R @ es3"
        by (simp add: monitorProcesses_def Let_def)
      with a show ?thesis by (intro exI[of _ es3]) simp
    qed
  qed
qed

text \<open>
  C4. In one cycle (\<open>monitorProcesses\<close> on a snapshot), with the restarted set the
  detector returns: all the cycle does is what the detector does, then the stable check
  of exactly the records whose name is not in the set, then at most error logs and the
  cycle's own failure report. So the cycle logs as many \<open>[Check]\<close> lines as there are
  records outside the set, and every record of the snapshot is on one side only. If its
  name is in the set, polling is started for the name, once, and the only notifications
  the whole cycle attempts for that name are the restart notice (and the cycle's own
  failure report, should the name be \<open>PM2 Monitor\<close>): no status alert and no resource
  warning. If its name is not in the set, the cycle starts no polling for the name and
  checks the record (its \<open>[Check]\<close> line is logged).
\<close>

theorem restarted_or_checked:
  "case detectAndHandleRestarts cfg appRestartHistory ps of
     (restartedApps, history', effects1) \<Rightarrow>
       (case monitorProcesses cfg appRestartHistory (Inr ps) fileRead wrote now of
          (history'', written, effects) \<Rightarrow>
            (\<exists>rest. effects =
               effects1 @
               checkStableProcesses cfg (filter (\<lambda>p. name p \<notin> restartedApps) ps) {} @ rest \<and>
               list_all isAftermath rest) \<and>
            length (filter isConsoleLog effects) =
              length (filter (\<lambda>p. name p \<notin> restartedApps) ps) \<and>
            (\<forall>p \<in> set ps.
               if name p \<in> restartedApps
               then count_list effects (StartPolling (name p)) = 1 \<and>
                    (\<forall>t m c. Notify (name p) t m c \<in> set effects \<longrightarrow>
                       t = ''Process Restart Detected'' \<or>
                       (name p = ''PM2 Monitor'' \<and> t = ''Monitoring Script Error''))
               else StartPolling (name p) \<notin> set effects \<and>
                    ConsoleLog (checkLine p) \<in> set effects))"
proof -
  obtain R h' es where d: "detectAndHandleRestarts cfg appRestartHistory ps = (R, h', es)"
    by (cases "detectAndHandleRestarts cfg appRestartHistory ps")
  obtain hc w E where
    m: "monitorProcesses cfg appRestartHistory (Inr ps) fileRead wrote now = (hc, w, E)"
    by (cases "monitorProcesses cfg appRestartHistory (Inr ps) fileRead wrote now")
  from monitor_effects[OF d, of fileRead wrote now] m obtain rest where
    E: "E = es @ checkStableProcesses cfg ps R @ rest" and aft: "list_all isAftermath rest"
    by auto
  note A = aftermath_facts[OF aft]
  have chk: "checkStableProcesses cfg ps R =
      checkStableProcesses cfg (filter (\<lambda>p. name p \<notin> R) ps) {}"
    using checkStable_filter[of cfg ps R] checkStable_any_set[of cfg R ps] by simp
  have c1: "\<exists>rest. E = es @ checkStableProcesses cfg (filter (\<lambda>p. name p \<notin> R) ps) {} @ rest \<and>
      list_all isAftermath rest"
    using E aft chk by auto
  from d have hr: "handleRestarts cfg appRestartHistory (sumRestartsByApp ps []) = (R, h', es)"
    by (simp add: detectAndHandleRestarts_def)
  have c2: "length (filter isConsoleLog E) = length (filter (\<lambda>p. name p \<notin> R) ps)"
    unfolding E using handleRestarts_no_log[OF hr] checkStable_logs[of cfg ps R] A
    by simp
  have c3: "\<forall>p \<in> set ps.
      if name p \<in> R
      then count_list E (StartPolling (name p)) = 1 \<and>
           (\<forall>t m c. Notify (name p) t m c \<in> set E \<longrightarrow>
              t = ''Process Restart Detected'' \<or>
              (name p = ''PM2 Monitor'' \<and> t = ''Monitoring Script Error''))
      else StartPolling (name p) \<notin> set E \<and> ConsoleLog (checkLine p) \<in> set E"
  proof
    fix p assume p: "p \<in> set ps"
    have nochk: "count_list (checkStableProcesses cfg ps R) (StartPolling (name p)) = 0"
      by (simp add: checkStable_no_restart_notice)
    then have nochk': "StartPolling (name p) \<notin> set (checkStableProcesses cfg ps R)"
      by (simp add: count_list_0_iff)
    from aftermath_facts[OF aft, of "name p"]
    have norest: "StartPolling (name p) \<notin> set rest" by blast
    then have norest': "count_list rest (StartPolling (name p)) = 0"
      by (simp add: count_list_0_iff)
    show "if name p \<in> R
      then count_list E (StartPolling (name p)) = 1 \<and>
           (\<forall>t m c. Notify (name p) t m c \<in> set E \<longrightarrow>
              t = ''Process Restart Detected'' \<or>
              (name p = ''PM2 Monitor'' \<and> t = ''Monitoring Script Error''))
      else StartPolling (name p) \<notin> set E \<and> ConsoleLog (checkLine p) \<in> set E"
    proof (cases "name p \<in> R")
      case True
      have one: "count_list E (StartPolling (name p)) = 1"
        unfolding E using detect_spec(4)[OF d, of "name p"] True nochk norest'
        by simp
      have "\<forall>t m c. Notify (name p) t m c \<in> set E \<longrightarrow>
              t = ''Process Restart Detected'' \<or>
              (name p = ''PM2 Monitor'' \<and> t = ''Monitoring Script Error'')"
      proof (intro allI impI)
        fix t m c assume "Notify (name p) t m c \<in> set E"
        then consider "Notify (name p) t m c \<in> set es"
          | "Notify (name p) t m c \<in> set (checkStableProcesses cfg ps R)"
          | "Notify (name p) t m c \<in> set rest"
          unfolding E by auto
        then show "t = ''Process Restart Detected'' \<or>
              (name p = ''PM2 Monitor'' \<and> t = ''Monitoring Script Error'')"
        proof cases
          case 1
          then show ?thesis using detect_titles[OF d] by blast
        next
          case 2
          with True checkStable_subject show ?thesis by blast
        next
          case 3
          with A show ?thesis by blast
        qed
      qed
      with one True show ?thesis by simp
    next
      case False
      from False detect_polling[OF d, of "name p"]
      have "StartPolling (name p) \<notin> set es" by simp
      with nochk' norest have "StartPolling (name p) \<notin> set E"
        unfolding E by simp
      moreover from checkStable_evaluated[OF p False, of cfg]
      have "ConsoleLog (checkLine p) \<in> set E"
        unfolding E by simp
      ultimately show ?thesis using False by simp
    qed
  qed
  from c1 c2 c3 show ?thesis
    unfolding d m prod.case by blast
qed

text \<open>
  A cycle in which \<open>api\<close> (stored total 3, now 2 + 3) has restarted and \<open>worker\<close>
  has not: polling for \<open>api\<close>, whose instance 0 is not online and yet draws no status
  alert; one \<open>[Check]\<close> line, for \<open>worker\<close>, and its CPU warning.
\<close>

theorem restarted_or_checked_witness:
  "fst (detectAndHandleRestarts exampleConfig [''api'' \<mapsto> 3, ''worker'' \<mapsto> 0] [api0, worker, api1]) =
     {''api''} \<and>
   checkStableProcesses exampleConfig [worker] {} =
     [ConsoleLog (checkLine worker),
      Notify ''worker'' ''High CPU Usage'' (cpuMessage worker) ''warning''] \<and>
   (case monitorProcesses exampleConfig [''api'' \<mapsto> 3, ''worker'' \<mapsto> 0]
           (Inr [api0, worker, api1]) (Parsed []) None ''11/3/2026, 9:00:00 AM'' of
      (history'', written, effects) \<Rightarrow>
        length (filter isConsoleLog effects) = 1 \<and>
        count_list effects (StartPolling ''api'') = 1 \<and>
        Notify ''api'' ''Process Status Alert'' (statusMessage api0) ''danger'' \<notin> set effects \<and>
        StartPolling ''worker'' \<notin> set effects \<and>
        ConsoleLog (checkLine worker) \<in> set effects)"
proof -
  obtain R h' es where d:
    "detectAndHandleRestarts exampleConfig [''api'' \<mapsto> 3, ''worker'' \<mapsto> 0] [api0, worker, api1] =
       (R, h', es)"
    by (cases "detectAndHandleRestarts exampleConfig [''api'' \<mapsto> 3, ''worker'' \<mapsto> 0]
                 [api0, worker, api1]")
  obtain hc w E where m:
    "monitorProcesses exampleConfig [''api'' \<mapsto> 3, ''worker'' \<mapsto> 0]
           (Inr [api0, worker, api1]) (Parsed []) None ''11/3/2026, 9:00:00 AM'' = (hc, w, E)"
    by (cases "monitorProcesses exampleConfig [''api'' \<mapsto> 3, ''worker'' \<mapsto> 0]
           (Inr [api0, worker, api1]) (Parsed []) None ''11/3/2026, 9:00:00 AM''")
  have "fst (detectAndHandleRestarts exampleConfig [''api'' \<mapsto> 3, ''worker'' \<mapsto> 0]
               [api0, worker, api1]) = {''api''}"
    by (simp add: detectAndHandleRestarts_def api0_def api1_def worker_def Let_def)
  with d have R: "R = {''api''}" by simp
  have chk: "checkStableProcesses exampleConfig [worker] {} =
     [ConsoleLog (checkLine worker),
      Notify ''worker'' ''High CPU Usage'' (cpuMessage worker) ''warning'']"
    by (simp add: worker_def exampleConfig_def CONFIG_def)
  have names: "name api0 \<in> R" "name worker \<notin> R"
    by (simp_all add: R api0_def worker_def)
  have n: "name api0 = ''api''" "name worker = ''worker''"
    by (simp_all add: api0_def worker_def)
  have f: "filter (\<lambda>p. name p \<notin> R) [api0, worker, api1] = [worker]"
    by (simp add: R api0_def api1_def worker_def)
  note T = restarted_or_checked[where cfg = exampleConfig
      and appRestartHistory = "[''api'' \<mapsto> 3, ''worker'' \<mapsto> 0]"
      and ps = "[api0, worker, api1]" and fileRead = "Parsed []" and wrote = None
      and now = "''11/3/2026, 9:00:00 AM''", unfolded d m prod.case]
  from T f have logs: "length (filter isConsoleLog E) = 1" by simp
  note sides = T[THEN conjunct2, THEN conjunct2]
  have "api0 \<in> set [api0, worker, api1]" by simp
  from bspec[OF sides this] names(1)
  have p1: "count_list E (StartPolling (name api0)) = 1"
    and p1': "\<forall>t m c. Notify (name api0) t m c \<in> set E \<longrightarrow>
        t = ''Process Restart Detected'' \<or>
        (name api0 = ''PM2 Monitor'' \<and> t = ''Monitoring Script Error'')"
    by simp_all
  have "Notify ''api'' ''Process Status Alert'' (statusMessage api0) ''danger'' \<notin> set E"
  proof
    assume "Notify ''api'' ''Process Status Alert'' (statusMessage api0) ''danger'' \<in> set E"
    with p1' n(1) have "''Process Status Alert'' = ''Process Restart Detected'' \<or>
        (''api'' = ''PM2 Monitor'' \<and> ''Process Status Alert'' = ''Monitoring Script Error'')"
      by metis
    then show False by simp
  qed
  note p3 = this
  have "worker \<in> set [api0, worker, api1]" by simp
  from bspec[OF sides this] names(2)
  have p2: "StartPolling (name worker) \<notin> set E \<and> ConsoleLog (checkLine worker) \<in> set E"
    by simp
  from p1 p2 have "count_list E (StartPolling ''api'') = 1 \<and> StartPolling ''worker'' \<notin> set E \<and>
      ConsoleLog (checkLine worker) \<in> set E"
    by (simp add: n)
  with d R chk logs p3 show ?thesis unfolding m by simp
qed

section \<open>The stabilization poller\<close>

lemma pollTick_cases:
  "pollTick cfg appName a fetched = (n, st, es) \<Longrightarrow>
     n = a + 1 \<and>
     (st = Errored \<longleftrightarrow> faulted fetched) \<and>
     (st = Stabilized \<longleftrightarrow> allOnline appName fetched) \<and>
     (st = Failed \<longleftrightarrow>
        \<not> faulted fetched \<and> \<not> allOnline appName fetched \<and> RECHECK_MAX_ATTEMPTS cfg \<le> a + 1) \<and>
     (st = Polling \<longleftrightarrow>
        \<not> faulted fetched \<and> \<not> allOnline appName fetched \<and> a + 1 < RECHECK_MAX_ATTEMPTS cfg)"
  by (auto simp: pollTick_def Let_def allOnline_def instancesOf_def faulted_def
           split: sum.splits if_splits)

lemma pollTick_Failed_effects:
  "pollTick cfg appName a fetched = (n, Failed, es) \<Longrightarrow>
     filter isNotify es =
       [Notify appName ''Restart Failed''
          (failureMessage appName (instancesOf appName fetched)) ''danger'']"
  by (auto simp: pollTick_def Let_def instancesOf_def split: sum.splits if_splits)

lemma pollTick_Polling_effects:
  "pollTick cfg appName a fetched = (n, Polling, es) \<Longrightarrow> filter isNotify es = []"
  by (auto simp: pollTick_def Let_def split: sum.splits if_splits)

lemma pollFrom_unfold:
  "pollFrom cfg appName fetch a =
     (case pollTick cfg appName a (fetch (a + 1)) of
        (a', Polling, effects) \<Rightarrow>
          (case pollFrom cfg appName fetch (a + 1) of
             (n, final, effects') \<Rightarrow> (n, final, effects @ effects'))
      | (a', final, effects) \<Rightarrow> (a', final, effects))"
  by (rule pollFrom.simps)

text \<open>
  A timer that is still set after \<open>a\<close> runs, with budget left: where it stops, in which
  state, and that no earlier sample was a fault or all online.
\<close>

lemma pollFrom_spec:
  "a < RECHECK_MAX_ATTEMPTS cfg \<Longrightarrow> pollFrom cfg appName fetch a = (n, st, es) \<Longrightarrow>
     a < n \<and> n \<le> RECHECK_MAX_ATTEMPTS cfg \<and> st \<noteq> Polling \<and>
     (st = Errored \<longleftrightarrow> faulted (fetch n)) \<and>
     (st = Stabilized \<longleftrightarrow> allOnline appName (fetch n)) \<and>
     (st = Failed \<longrightarrow> n = RECHECK_MAX_ATTEMPTS cfg \<and>
        filter isNotify es =
          [Notify appName ''Restart Failed''
             (failureMessage appName (instancesOf appName (fetch n))) ''danger'']) \<and>
     (\<forall>j. a < j \<and> j < n \<longrightarrow> \<not> faulted (fetch j) \<and> \<not> allOnline appName (fetch j))"
proof (induction cfg appName fetch a arbitrary: n st es rule: pollFrom.induct)
  case (1 cfg appName fetch a)
  obtain a' st1 es1 where t: "pollTick cfg appName a (fetch (a + 1)) = (a', st1, es1)"
    by (cases "pollTick cfg appName a (fetch (a + 1))")
  note T = pollTick_cases[OF t]
  show ?case
  proof (cases "st1 = Polling")
    case True
    obtain n2 st2 es2 where r: "pollFrom cfg appName fetch (a + 1) = (n2, st2, es2)"
      by (cases "pollFrom cfg appName fetch (a + 1)")
    from True T have lt: "a + 1 < RECHECK_MAX_ATTEMPTS cfg" by simp
    from True t have t': "pollTick cfg appName a (fetch (a + 1)) = (a', Polling, es1)" by simp
    have IH: "a + 1 < n2 \<and> n2 \<le> RECHECK_MAX_ATTEMPTS cfg \<and> st2 \<noteq> Polling \<and>
     (st2 = Errored \<longleftrightarrow> faulted (fetch n2)) \<and>
     (st2 = Stabilized \<longleftrightarrow> allOnline appName (fetch n2)) \<and>
     (st2 = Failed \<longrightarrow> n2 = RECHECK_MAX_ATTEMPTS cfg \<and>
        filter isNotify es2 =
          [Notify appName ''Restart Failed''
             (failureMessage appName (instancesOf appName (fetch n2))) ''danger'']) \<and>
     (\<forall>j. a + 1 < j \<and> j < n2 \<longrightarrow> \<not> faulted (fetch j) \<and> \<not> allOnline appName (fetch j))"
      using "1.IH"[OF t'[symmetric] refl refl lt r]
      by blast
    from "1.prems"(2) t' r have eqs: "n = n2" "st = st2" "es = es1 @ es2"
      by (simp_all add: pollFrom_unfold[of cfg appName fetch a])
    have first: "\<not> faulted (fetch (a + 1)) \<and> \<not> allOnline appName (fetch (a + 1))"
      using T True by simp
    have "\<forall>j. a < j \<and> j < n2 \<longrightarrow> \<not> faulted (fetch j) \<and> \<not> allOnline appName (fetch j)"
    proof (intro allI impI)
      fix j assume j: "a < j \<and> j < n2"
      show "\<not> faulted (fetch j) \<and> \<not> allOnline appName (fetch j)"
      proof (cases "j = a + 1")
        case True
        then show ?thesis using first by simp
      next
        case False
        with j have "a + 1 < j \<and> j < n2" by simp
        with IH show ?thesis by blast
      qed
    qed
    with IH pollTick_Polling_effects[OF t'] show ?thesis
      unfolding eqs by simp
  next
    case False
    with "1.prems"(2) t have eqs: "n = a'" "st = st1" "es = es1"
      by (cases st1; simp add: pollFrom_unfold[of cfg appName fetch a])+
    from T have a': "a' = a + 1" by simp
    have fe: "st1 = Failed \<longrightarrow> filter isNotify es1 =
          [Notify appName ''Restart Failed''
             (failureMessage appName (instancesOf appName (fetch (a + 1)))) ''danger'']"
      using pollTick_Failed_effects[of cfg appName a "fetch (a + 1)" a' es1] t by simp
    show ?thesis
      using T False "1.prems"(1) fe unfolding eqs a' by auto
  qed
qed

lemma join_lines: "xs \<noteq> [] \<Longrightarrow> sep @ join sep xs = concat (map ((@) sep) xs)"
  by (induction sep xs rule: join.induct) simp_all

lemma failureMessage_lines:
  "failureMessage appName insts =
     ''App '' @ [CHR 0x27] @ appName @ [CHR 0x27] @ '' failed to become '' @
     [CHR 0x27] @ ''online'' @ [CHR 0x27] @ '' within the time limit.'' @ [CHR 0x0A] @
     (if insts = [] then ''Could not find process.''
      else ''Current status:'' @
           concat (map (\<lambda>p. [CHR 0x0A] @ ''- ID '' @ numStr (of_int (pm_id p)) @ '': '' @
                             status p) insts))"
proof (cases "insts = []")
  case True
  then show ?thesis by (simp add: failureMessage_def failureReason_def)
next
  case False
  let ?line = "\<lambda>p. ''ID '' @ numStr (of_int (pm_id p)) @ '': '' @ status p"
  from False have ne: "map ?line insts \<noteq> []" by simp
  have "[CHR 0x0A] @ ''- '' @ join ([CHR 0x0A] @ ''- '') (map ?line insts) =
        ([CHR 0x0A] @ ''- '') @ join ([CHR 0x0A] @ ''- '') (map ?line insts)"
    by simp
  also have "\<dots> = concat (map ((@) ([CHR 0x0A] @ ''- '')) (map ?line insts))"
    by (rule join_lines[OF ne])
  also have "\<dots> = concat (map (\<lambda>p. [CHR 0x0A] @ ''- ID '' @ numStr (of_int (pm_id p)) @ '': '' @
                             status p) insts)"
    by (simp add: comp_def)
  finally have "[CHR 0x0A] @ ''- '' @ join ([CHR 0x0A] @ ''- '') (map ?line insts) =
      concat (map (\<lambda>p. [CHR 0x0A] @ ''- ID '' @ numStr (of_int (pm_id p)) @ '': '' @
                        status p) insts)" .
  with False show ?thesis
    by (simp add: failureMessage_def failureReason_def)
qed

text \<open>
  C2, as the code has it. With a budget of at least one attempt, and each run of the
  callback finished before the next tick: the poller takes at least one and at most
  max-attempts samples. It reaches \<open>Stabilized\<close> if and only if some sample within the
  budget shows at least one instance of the name and every instance \<open>online\<close>, and no
  earlier fetch faulted. It reaches \<open>Failed\<close> if and only if no sample within the budget
  is such a sample and no fetch within the budget faults; then it has taken exactly
  max-attempts samples, and its one notification is \<open>Restart Failed\<close>, of severity
  \<open>danger\<close>, whose message is the sentence that the app failed to become online, followed
  by \<open>Could not find process.\<close> when the last sample has no instance of the name, and
  else by \<open>Current status:\<close> and one line \<open>- ID id: status\<close> for each instance of the
  last sample, in order, the id as its decimal numeral.
  (A fetch that faults first ends the poller in \<open>Errored\<close>: see C9.)
\<close>

theorem poller_outcome:
  assumes "0 < RECHECK_MAX_ATTEMPTS cfg"
  shows "case startPollingAppStatus cfg appName fetch of
           (n, final, effects) \<Rightarrow>
             1 \<le> n \<and> n \<le> RECHECK_MAX_ATTEMPTS cfg \<and>
             (final = Stabilized \<longleftrightarrow>
                (\<exists>i. 1 \<le> i \<and> i \<le> RECHECK_MAX_ATTEMPTS cfg \<and> allOnline appName (fetch i) \<and>
                     (\<forall>j. 1 \<le> j \<and> j < i \<longrightarrow> \<not> faulted (fetch j)))) \<and>
             (final = Failed \<longleftrightarrow>
                (\<forall>i. 1 \<le> i \<and> i \<le> RECHECK_MAX_ATTEMPTS cfg \<longrightarrow>
                     \<not> faulted (fetch i) \<and> \<not> allOnline appName (fetch i))) \<and>
             (final = Failed \<longrightarrow>
                n = RECHECK_MAX_ATTEMPTS cfg \<and>
                filter isNotify effects =
                  [Notify appName ''Restart Failed''
                     (''App '' @ [CHR 0x27] @ appName @ [CHR 0x27] @ '' failed to become '' @
                      [CHR 0x27] @ ''online'' @ [CHR 0x27] @ '' within the time limit.'' @
                      [CHR 0x0A] @
                      (if instancesOf appName (fetch (RECHECK_MAX_ATTEMPTS cfg)) = []
                       then ''Could not find process.''
                       else ''Current status:'' @
                            concat (map (\<lambda>p. [CHR 0x0A] @ ''- ID '' @
                                              numStr (of_int (pm_id p)) @ '': '' @ status p)
                                      (instancesOf appName (fetch (RECHECK_MAX_ATTEMPTS cfg))))))
                     ''danger'']) \<and>
             (\<forall>i. readInt (numStr (of_int i)) = i)"
proof -
  obtain n st es where r: "pollFrom cfg appName fetch 0 = (n, st, es)"
    by (cases "pollFrom cfg appName fetch 0")
  note S = pollFrom_spec[OF assms r]
  let ?M = "RECHECK_MAX_ATTEMPTS cfg"
  have n: "1 \<le> n \<and> n \<le> ?M" using S by simp
  have before: "\<And>j. 1 \<le> j \<Longrightarrow> j < n \<Longrightarrow> \<not> faulted (fetch j) \<and> \<not> allOnline appName (fetch j)"
    using S by simp
  have stab: "st = Stabilized \<longleftrightarrow>
      (\<exists>i. 1 \<le> i \<and> i \<le> ?M \<and> allOnline appName (fetch i) \<and>
           (\<forall>j. 1 \<le> j \<and> j < i \<longrightarrow> \<not> faulted (fetch j)))"
  proof
    assume "st = Stabilized"
    with S have "allOnline appName (fetch n)" by simp
    with n before show "\<exists>i. 1 \<le> i \<and> i \<le> ?M \<and> allOnline appName (fetch i) \<and>
        (\<forall>j. 1 \<le> j \<and> j < i \<longrightarrow> \<not> faulted (fetch j))"
      by blast
  next
    assume "\<exists>i. 1 \<le> i \<and> i \<le> ?M \<and> allOnline appName (fetch i) \<and>
        (\<forall>j. 1 \<le> j \<and> j < i \<longrightarrow> \<not> faulted (fetch j))"
    then obtain i where i: "1 \<le> i" "i \<le> ?M" "allOnline appName (fetch i)"
      "\<forall>j. 1 \<le> j \<and> j < i \<longrightarrow> \<not> faulted (fetch j)"
      by blast
    have "\<not> i < n" using before[OF i(1)] i(3) by blast
    then have "n \<le> i" by simp
    then consider "n = i" | "n < i" by linarith
    then show "st = Stabilized"
    proof cases
      case 1
      with i(3) S show ?thesis by simp
    next
      case 2
      with i(4) n have nf: "\<not> faulted (fetch n)" by simp
      from 2 i(2) have "n \<noteq> ?M" by simp
      with S nf have "st \<noteq> Errored" "st \<noteq> Failed" "st \<noteq> Polling" by auto
      then show ?thesis by (cases st) simp_all
    qed
  qed
  have failed: "st = Failed \<longleftrightarrow>
      (\<forall>i. 1 \<le> i \<and> i \<le> ?M \<longrightarrow> \<not> faulted (fetch i) \<and> \<not> allOnline appName (fetch i))"
  proof
    assume f: "st = Failed"
    with S have nM: "n = ?M" and last: "\<not> faulted (fetch n)" "\<not> allOnline appName (fetch n)"
      by auto
    show "\<forall>i. 1 \<le> i \<and> i \<le> ?M \<longrightarrow> \<not> faulted (fetch i) \<and> \<not> allOnline appName (fetch i)"
    proof (intro allI impI)
      fix i assume i: "1 \<le> i \<and> i \<le> ?M"
      show "\<not> faulted (fetch i) \<and> \<not> allOnline appName (fetch i)"
      proof (cases "i = n")
        case True
        with last show ?thesis by simp
      next
        case False
        with i nM have "i < n" by simp
        with i before show ?thesis by blast
      qed
    qed
  next
    assume "\<forall>i. 1 \<le> i \<and> i \<le> ?M \<longrightarrow> \<not> faulted (fetch i) \<and> \<not> allOnline appName (fetch i)"
    with n have "\<not> faulted (fetch n)" "\<not> allOnline appName (fetch n)" by auto
    with S have "st \<noteq> Errored" "st \<noteq> Stabilized" "st \<noteq> Polling" by auto
    then show "st = Failed" by (cases st) simp_all
  qed
  have "st = Failed \<longrightarrow> n = ?M \<and> filter isNotify es =
      [Notify appName ''Restart Failed''
         (failureMessage appName (instancesOf appName (fetch ?M))) ''danger'']"
    using S by auto
  then have msg: "st = Failed \<longrightarrow> n = ?M \<and> filter isNotify es =
      [Notify appName ''Restart Failed''
         (''App '' @ [CHR 0x27] @ appName @ [CHR 0x27] @ '' failed to become '' @
          [CHR 0x27] @ ''online'' @ [CHR 0x27] @ '' within the time limit.'' @
          [CHR 0x0A] @
          (if instancesOf appName (fetch ?M) = []
           then ''Could not find process.''
           else ''Current status:'' @
                concat (map (\<lambda>p. [CHR 0x0A] @ ''- ID '' @
                                  numStr (of_int (pm_id p)) @ '': '' @ status p)
                          (instancesOf appName (fetch ?M))))) ''danger'']"
    unfolding failureMessage_lines .
  have num: "\<forall>i. readInt (numStr (of_int i)) = i"
    by (simp add: readInt_numStr)
  show ?thesis
    unfolding startPollingAppStatus_def r prod.case
    using n stab failed msg num by blast
qed

text \<open>
  The claim as it was stated leaves the fault out: it has the poller \<open>Stabilized\<close> whenever
  some sample within the budget is all online, and \<open>Failed\<close> otherwise. Here the first
  sample shows \<open>api\<close> stopped, the second fetch faults, and the third sample, well within
  the budget of 12, would show \<open>api\<close> online: the poller stops after two samples, in
  \<open>Errored\<close>, neither \<open>Stabilized\<close> nor \<open>Failed\<close>.
\<close>

theorem poller_outcome_counterexample:
  "allOnline ''api'' (fetchFaultAtSecond 3) \<and>
   fst (startPollingAppStatus exampleConfig ''api'' fetchFaultAtSecond) = 2 \<and>
   fst (snd (startPollingAppStatus exampleConfig ''api'' fetchFaultAtSecond)) = Errored"
  by (simp add: startPollingAppStatus_def pollFrom.simps pollTick_def fetchFaultAtSecond_def
        exampleConfig_def CONFIG_def Let_def apiStopped_def apiOnline_def boom_def
        allOnline_def instancesOf_def)

text \<open>
  The scenario of the specification (\<open>online\<close> at the second sample); a run in which
  one of the two instances of \<open>api\<close> never comes online: 12 samples, then
  \<open>Restart Failed\<close> with both instances listed; and a run in which \<open>api\<close> is gone.
\<close>

theorem poller_outcome_witness:
  "0 < RECHECK_MAX_ATTEMPTS exampleConfig \<and>
   fst (startPollingAppStatus exampleConfig ''api'' fetchOnlineAtSecond) = 2 \<and>
   fst (snd (startPollingAppStatus exampleConfig ''api'' fetchOnlineAtSecond)) = Stabilized \<and>
   fst (startPollingAppStatus exampleConfig ''api'' fetchNeverOnline) = 12 \<and>
   fst (snd (startPollingAppStatus exampleConfig ''api'' fetchNeverOnline)) = Failed \<and>
   filter isNotify (snd (snd (startPollingAppStatus exampleConfig ''api'' fetchNeverOnline))) =
     [Notify ''api'' ''Restart Failed''
        (''App 'api' failed to become 'online' within the time limit.'' @ [CHR 0x0A] @
         ''Current status:'' @ [CHR 0x0A] @ ''- ID 0: stopped'' @ [CHR 0x0A] @ ''- ID 1: online'')
        ''danger''] \<and>
   fst (snd (startPollingAppStatus exampleConfig ''api'' fetchGone)) = Failed \<and>
   filter isNotify (snd (snd (startPollingAppStatus exampleConfig ''api'' fetchGone))) =
     [Notify ''api'' ''Restart Failed''
        (''App 'api' failed to become 'online' within the time limit.'' @ [CHR 0x0A] @
         ''Could not find process.'')
        ''danger'']"
proof -
  have h: "0 < RECHECK_MAX_ATTEMPTS exampleConfig"
    and M: "RECHECK_MAX_ATTEMPTS exampleConfig = 12"
    by (simp_all add: exampleConfig_def CONFIG_def)
  have num: "numStr 0 = ''0''" "numStr 1 = ''1''"
    by code_simp+
  have on: "allOnline ''api'' (fetchOnlineAtSecond 2)"
    by (simp add: fetchOnlineAtSecond_def allOnline_def instancesOf_def apiOnline_def)
  have nf: "\<And>j. \<not> faulted (fetchOnlineAtSecond j)"
    by (simp add: fetchOnlineAtSecond_def faulted_def)
  obtain n final effects where
    r: "startPollingAppStatus exampleConfig ''api'' fetchOnlineAtSecond = (n, final, effects)"
    by (cases "startPollingAppStatus exampleConfig ''api'' fetchOnlineAtSecond")
  note T = poller_outcome[OF h, of "''api''" fetchOnlineAtSecond, unfolded r prod.case]
  have "\<exists>i. 1 \<le> i \<and> i \<le> RECHECK_MAX_ATTEMPTS exampleConfig \<and>
          allOnline ''api'' (fetchOnlineAtSecond i) \<and>
          (\<forall>j. 1 \<le> j \<and> j < i \<longrightarrow> \<not> faulted (fetchOnlineAtSecond j))"
    using on nf M by (intro exI[of _ 2]) simp
  with T have final: "final = Stabilized" by blast
  have n2: "fst (startPollingAppStatus exampleConfig ''api'' fetchOnlineAtSecond) = 2"
    by (simp add: startPollingAppStatus_def pollFrom.simps pollTick_def fetchOnlineAtSecond_def
        exampleConfig_def CONFIG_def Let_def apiStopped_def apiOnline_def)
  obtain n' final' effects' where
    r': "startPollingAppStatus exampleConfig ''api'' fetchNeverOnline = (n', final', effects')"
    by (cases "startPollingAppStatus exampleConfig ''api'' fetchNeverOnline")
  note T' = poller_outcome[OF h, of "''api''" fetchNeverOnline, unfolded r' prod.case]
  have never: "\<forall>i. 1 \<le> i \<and> i \<le> RECHECK_MAX_ATTEMPTS exampleConfig \<longrightarrow>
      \<not> faulted (fetchNeverOnline i) \<and> \<not> allOnline ''api'' (fetchNeverOnline i)"
    by (simp add: fetchNeverOnline_def faulted_def allOnline_def instancesOf_def
          apiStopped_def worker_def api1_def)
  with T' have final': "final' = Failed" by blast
  have inst: "\<And>i. instancesOf ''api'' (fetchNeverOnline i) = [apiStopped, api1]"
    by (simp add: fetchNeverOnline_def instancesOf_def apiStopped_def worker_def api1_def)
  have fields: "pm_id apiStopped = 0" "status apiStopped = ''stopped''"
    "pm_id api1 = 1" "status api1 = ''online''"
    by (simp_all add: apiStopped_def api1_def)
  from final' T' have n': "n' = 12"
    and e': "filter isNotify effects' =
     [Notify ''api'' ''Restart Failed''
        (''App 'api' failed to become 'online' within the time limit.'' @ [CHR 0x0A] @
         ''Current status:'' @ [CHR 0x0A] @ ''- ID 0: stopped'' @ [CHR 0x0A] @ ''- ID 1: online'')
        ''danger'']"
    by (simp_all add: inst M fields num)
  obtain n'' final'' effects'' where
    r'': "startPollingAppStatus exampleConfig ''api'' fetchGone = (n'', final'', effects'')"
    by (cases "startPollingAppStatus exampleConfig ''api'' fetchGone")
  note T'' = poller_outcome[OF h, of "''api''" fetchGone, unfolded r'' prod.case]
  have gone: "\<forall>i. 1 \<le> i \<and> i \<le> RECHECK_MAX_ATTEMPTS exampleConfig \<longrightarrow>
      \<not> faulted (fetchGone i) \<and> \<not> allOnline ''api'' (fetchGone i)"
    by (simp add: fetchGone_def faulted_def allOnline_def instancesOf_def worker_def)
  with T'' have final'': "final'' = Failed" by blast
  have inst'': "\<And>i. instancesOf ''api'' (fetchGone i) = []"
    by (simp add: fetchGone_def instancesOf_def worker_def)
  from final'' T'' have e'': "filter isNotify effects'' =
     [Notify ''api'' ''Restart Failed''
        (''App 'api' failed to become 'online' within the time limit.'' @ [CHR 0x0A] @
         ''Could not find process.'')
        ''danger'']"
    by (simp add: inst'')
  show ?thesis
    unfolding r r' r'' using h r final n2 n' final' e' final'' e'' by simp
qed

text \<open>
  C9. When the fetch of a tick faults, that run of the callback ends the poller in
  \<open>Errored\<close>: it clears the interval, logs the error and attempts one notification of
  severity \<open>danger\<close> with the title \<open>Status Polling Error for 'name'\<close> and the error's
  message; no sample is fetched after it, whatever the counter and the budget are. So a
  poller whose first fault comes at sample \<open>k\<close>, before any sample is all online, ends in
  \<open>Errored\<close> after exactly \<open>k\<close> samples.
\<close>

theorem poller_fetch_fault:
  "(fetch (attempts + 1) = Inl error \<longrightarrow>
      pollFrom cfg appName fetch attempts =
        (attempts + 1, Errored,
         [ConsoleLog (pollingLine cfg appName (attempts + 1)), ClearInterval,
          ConsoleError (''[Error] Polling for '' @ [CHR 0x27] @ appName @ [CHR 0x27] @
                        '' failed: '' @ message error),
          Notify appName (''Status Polling Error for '' @ [CHR 0x27] @ appName @ [CHR 0x27])
            (message error) ''danger''])) \<and>
   (1 \<le> k \<and> k \<le> RECHECK_MAX_ATTEMPTS cfg \<and> faulted (fetch k) \<and>
    (\<forall>j. 1 \<le> j \<and> j < k \<longrightarrow> \<not> faulted (fetch j) \<and> \<not> allOnline appName (fetch j)) \<longrightarrow>
      fst (startPollingAppStatus cfg appName fetch) = k \<and>
      fst (snd (startPollingAppStatus cfg appName fetch)) = Errored)"
proof (rule conjI; rule impI)
  assume "fetch (attempts + 1) = Inl error"
  then show "pollFrom cfg appName fetch attempts =
        (attempts + 1, Errored,
         [ConsoleLog (pollingLine cfg appName (attempts + 1)), ClearInterval,
          ConsoleError (''[Error] Polling for '' @ [CHR 0x27] @ appName @ [CHR 0x27] @
                        '' failed: '' @ message error),
          Notify appName (''Status Polling Error for '' @ [CHR 0x27] @ appName @ [CHR 0x27])
            (message error) ''danger''])"
    by (simp add: pollFrom_unfold[of cfg appName fetch attempts] pollTick_def Let_def)
next
  assume a: "1 \<le> k \<and> k \<le> RECHECK_MAX_ATTEMPTS cfg \<and> faulted (fetch k) \<and>
    (\<forall>j. 1 \<le> j \<and> j < k \<longrightarrow> \<not> faulted (fetch j) \<and> \<not> allOnline appName (fetch j))"
  obtain n st es where r: "pollFrom cfg appName fetch 0 = (n, st, es)"
    by (cases "pollFrom cfg appName fetch 0")
  from a have pos: "0 < RECHECK_MAX_ATTEMPTS cfg" by simp
  note S = pollFrom_spec[OF pos r]
  have "\<not> k < n" using S a by auto
  moreover have "\<not> n < k"
  proof
    assume lt: "n < k"
    with a S have "\<not> faulted (fetch n)" "\<not> allOnline appName (fetch n)"
      "n \<noteq> RECHECK_MAX_ATTEMPTS cfg"
      by auto
    with S have "st \<noteq> Errored" "st \<noteq> Stabilized" "st \<noteq> Polling" "st \<noteq> Failed" by auto
    then show False by (cases st) simp_all
  qed
  ultimately have nk: "n = k" by simp
  with S a have "st = Errored" by simp
  with nk r show "fst (startPollingAppStatus cfg appName fetch) = k \<and>
      fst (snd (startPollingAppStatus cfg appName fetch)) = Errored"
    by (simp add: startPollingAppStatus_def)
qed

text \<open>The second fetch faults, with ten attempts left in the budget of 12.\<close>

theorem poller_fetch_fault_witness:
  "fetchFaultAtSecond (1 + 1) = Inl boom \<and>
   pollFrom exampleConfig ''api'' fetchFaultAtSecond 1 =
     (1 + 1, Errored,
      [ConsoleLog (pollingLine exampleConfig ''api'' (1 + 1)), ClearInterval,
       ConsoleError (''[Error] Polling for '' @ [CHR 0x27] @ ''api'' @ [CHR 0x27] @
                     '' failed: '' @ message boom),
       Notify ''api'' (''Status Polling Error for '' @ [CHR 0x27] @ ''api'' @ [CHR 0x27])
         (message boom) ''danger'']) \<and>
   faulted (fetchFaultAtSecond 2) \<and>
   fst (startPollingAppStatus exampleConfig ''api'' fetchFaultAtSecond) = 2 \<and>
   fst (snd (startPollingAppStatus exampleConfig ''api'' fetchFaultAtSecond)) = Errored"
proof -
  have h1: "fetchFaultAtSecond (1 + 1) = Inl boom"
    by (simp add: fetchFaultAtSecond_def)
  have h2: "1 \<le> (2::nat) \<and> 2 \<le> RECHECK_MAX_ATTEMPTS exampleConfig \<and>
      faulted (fetchFaultAtSecond 2) \<and>
      (\<forall>j. 1 \<le> j \<and> j < 2 \<longrightarrow>
         \<not> faulted (fetchFaultAtSecond j) \<and> \<not> allOnline ''api'' (fetchFaultAtSecond j))"
    by (auto simp: fetchFaultAtSecond_def faulted_def allOnline_def instancesOf_def
          apiStopped_def exampleConfig_def CONFIG_def)
  note T = poller_fetch_fault[where fetch = fetchFaultAtSecond and attempts = 1
      and error = boom and cfg = exampleConfig and appName = "''api''" and k = 2]
  note c1 = T[THEN conjunct1, THEN mp, OF h1]
  note c2 = T[THEN conjunct2, THEN mp, OF h2]
  from h1 c1 h2 c2 show ?thesis by blast
qed

section \<open>Notification throttling\<close>

lemma sendSlackNotification_cases:
  "sendSlackNotification cfg cache now ts posted a t m c =
     (if (case cache (a @ ''::'' @ t) of
            None \<Rightarrow> False
          | Some sent \<Rightarrow> now - sent < THROTTLE_DURATION_MS cfg)
      then (Inr (), cache, [])
      else (Inr (),
            (case posted of None \<Rightarrow> cache(a @ ''::'' @ t \<mapsto> now) | Some e \<Rightarrow> cache),
            [ConsoleLog (''[Notification] Sending to Slack: ['' @ a @ ''] '' @ t),
             AxiosPost (SLACK_WEBHOOK_URL cfg) (createSlackPayload ts a t m c)] @
            (case posted of
               None \<Rightarrow> []
             | Some e \<Rightarrow>
                 [ConsoleError (''[Error] Failed to send Slack notification: '' @ message e)])))"
  by (simp add: sendSlackNotification_def sendStart_def sendSettle_def Let_def
           split: option.splits)


text \<open>
  C5. A call of \<open>sendSlackNotification\<close> always ends normally for its caller. It writes
  the cache only when it posted and the post was confirmed, and then only the entry of its
  own key, which becomes \<open>now\<close>; when the post failed the cache is as it was, so the
  window is not used up, and the failure is logged with \<open>console.error\<close>.
\<close>

theorem cache_written_on_success_only:
  "case sendSlackNotification cfg cache now timeString posted appName title msg color of
     (r, cache', effects) \<Rightarrow>
       r = Inr () \<and>
       cache' = (if deliveries effects = 1 \<and> posted = None
                 then cache(appName @ ''::'' @ title \<mapsto> now) else cache) \<and>
       (\<forall>error. posted = Some error \<longrightarrow>
          cache' = cache \<and>
          (deliveries effects = 1 \<longrightarrow>
             ConsoleError (''[Error] Failed to send Slack notification: '' @ message error)
               \<in> set effects))"
  by (simp add: sendSlackNotification_cases split: option.splits)

text \<open>A post that fails on an empty cache: one delivery attempt, the cache still empty.\<close>

theorem cache_written_on_success_only_witness:
  "call_posted failedCall = Some \<lparr> code = Some ''ECONNRESET'', message = ''socket hang up'' \<rparr> \<and>
   (case sendSlackNotification exampleConfig Map.empty (call_now failedCall)
           (call_time failedCall) (call_posted failedCall) (call_app failedCall)
           (call_title failedCall) (call_msg failedCall) (call_color failedCall) of
      (r, cache', effects) \<Rightarrow>
        r = Inr () \<and> cache' = Map.empty \<and> deliveries effects = 1 \<and>
        ConsoleError ''[Error] Failed to send Slack notification: socket hang up''
          \<in> set effects)"
proof -
  have h: "call_posted failedCall =
      Some \<lparr> code = Some ''ECONNRESET'', message = ''socket hang up'' \<rparr>"
    by (simp add: failedCall_def)
  obtain r cache' effects where s:
    "sendSlackNotification exampleConfig Map.empty (call_now failedCall)
           (call_time failedCall) (call_posted failedCall) (call_app failedCall)
           (call_title failedCall) (call_msg failedCall) (call_color failedCall) =
       (r, cache', effects)"
    by (cases "sendSlackNotification exampleConfig Map.empty (call_now failedCall)
           (call_time failedCall) (call_posted failedCall) (call_app failedCall)
           (call_title failedCall) (call_msg failedCall) (call_color failedCall)")
  have d: "deliveries effects = 1"
    using s by (auto simp: sendSlackNotification_cases h)
  note T = cache_written_on_success_only[where cfg = exampleConfig and cache = Map.empty
      and now = "call_now failedCall" and timeString = "call_time failedCall"
      and posted = "call_posted failedCall" and appName = "call_app failedCall"
      and title = "call_title failedCall" and msg = "call_msg failedCall"
      and color = "call_color failedCall", unfolded s prod.case]
  from T h d have "r = Inr () \<and> cache' = Map.empty \<and>
      ConsoleError (''[Error] Failed to send Slack notification: '' @
        message \<lparr> code = Some ''ECONNRESET'', message = ''socket hang up'' \<rparr>) \<in> set effects"
    by simp
  with h d s show ?thesis by simp
qed




section \<open>The history log\<close>

lemma logStatusToFile_written:
  "logStatusToFile cfg rd wr now ps = (r, Some h, es) \<Longrightarrow>
   length h \<le> MAX_HISTORY (WEB_SERVER cfg)"
  by (auto simp: logStatusToFile_def Let_def split: read_outcome.splits option.splits if_splits)

lemma appendAll_bound:
  "length (stored disk) \<le> MAX_HISTORY (WEB_SERVER cfg) \<Longrightarrow>
   length (stored (appendAll cfg disk steps)) \<le> MAX_HISTORY (WEB_SERVER cfg)"
proof (induction steps arbitrary: disk)
  case Nil
  then show ?case by simp
next
  case (Cons s steps)
  obtain r w es where l:
    "logStatusToFile cfg (readStatusFile disk (read_fault s)) (write_fault s)
       (step_time s) (step_procs s) = (r, w, es)"
    by (cases "logStatusToFile cfg (readStatusFile disk (read_fault s)) (write_fault s)
                 (step_time s) (step_procs s)")
  show ?case
  proof (cases w)
    case None
    with l Cons show ?thesis by simp
  next
    case (Some h)
    with l logStatusToFile_written[of cfg _ _ _ _ r h es]
    have "length (stored (Some h)) \<le> MAX_HISTORY (WEB_SERVER cfg)"
      by (simp add: stored_def)
    from Cons.IH[OF this] l Some show ?thesis by simp
  qed
qed

lemma logStatusToFile_faultFree:
  "logStatusToFile cfg (readStatusFile disk None) None now ps =
     (Inr (),
      Some (take (MAX_HISTORY (WEB_SERVER cfg)) (\<lparr> timestamp = now, processes = ps \<rparr> # stored disk)),
      [])"
  by (simp add: logStatusToFile_def readStatusFile_def stored_def Let_def split: option.splits)

lemma take_append_take: "take n (xs @ take n ys) = take n (xs @ ys)"
  by simp

lemma appendAll_faultFree:
  "list_all faultFree steps \<Longrightarrow> steps \<noteq> [] \<Longrightarrow>
   appendAll cfg disk steps =
     Some (take (MAX_HISTORY (WEB_SERVER cfg)) (rev (map entryOf steps) @ stored disk))"
proof (induction steps arbitrary: disk)
  case Nil
  then show ?case by simp
next
  case (Cons s steps)
  let ?f = "Some (take (MAX_HISTORY (WEB_SERVER cfg)) (entryOf s # stored disk))"
  from Cons.prems have rest: "list_all faultFree steps" by simp
  from Cons.prems have s: "read_fault s = None" "write_fault s = None"
    by (simp_all add: faultFree_def)
  have step: "appendAll cfg disk (s # steps) = appendAll cfg ?f steps"
    by (simp add: s logStatusToFile_faultFree entryOf_def)
  show ?case
  proof (cases "steps = []")
    case True
    with step show ?thesis by simp
  next
    case False
    have "take (MAX_HISTORY (WEB_SERVER cfg)) (rev (map entryOf steps) @ stored ?f) =
          take (MAX_HISTORY (WEB_SERVER cfg)) (rev (map entryOf steps) @ entryOf s # stored disk)"
      unfolding stored_def option.case by (rule take_append_take)
    with Cons.IH[OF rest False, of ?f] step show ?thesis by simp
  qed
qed

text \<open>
  C7. Each call of \<open>logStatusToFile\<close> that reads the array \<open>h\<close> and writes puts the new
  entry in front of \<open>h\<close> and writes the first \<open>MAX_HISTORY\<close> entries of that. So a log
  within the bound stays within it over any appends, whatever faults the reads and
  writes meet; and after any appends without fault (one at least), whatever the log held
  before, the log holds the new entries, the most recent first, in front of the old
  ones, cut to \<open>MAX_HISTORY\<close> entries: at most \<open>MAX_HISTORY\<close> entries, and what is dropped
  is the tail, the oldest entries.
\<close>

theorem history_bounded_newest_first:
  "(length (stored disk) \<le> MAX_HISTORY (WEB_SERVER cfg) \<longrightarrow>
      length (stored (appendAll cfg disk steps)) \<le> MAX_HISTORY (WEB_SERVER cfg)) \<and>
   (list_all faultFree steps \<and> steps \<noteq> [] \<longrightarrow>
      appendAll cfg disk steps =
        Some (take (MAX_HISTORY (WEB_SERVER cfg)) (rev (map entryOf steps) @ stored disk)) \<and>
      length (stored (appendAll cfg disk steps)) \<le> MAX_HISTORY (WEB_SERVER cfg) \<and>
      rev (map entryOf steps) @ stored disk =
        stored (appendAll cfg disk steps) @
        drop (MAX_HISTORY (WEB_SERVER cfg)) (rev (map entryOf steps) @ stored disk)) \<and>
   logStatusToFile cfg (Parsed h) None now procs =
     (Inr (),
      Some (take (MAX_HISTORY (WEB_SERVER cfg)) (\<lparr> timestamp = now, processes = procs \<rparr> # h)),
      [])"
proof (intro conjI impI)
  assume "length (stored disk) \<le> MAX_HISTORY (WEB_SERVER cfg)"
  then show "length (stored (appendAll cfg disk steps)) \<le> MAX_HISTORY (WEB_SERVER cfg)"
    by (rule appendAll_bound)
next
  assume a: "list_all faultFree steps \<and> steps \<noteq> []"
  then show e: "appendAll cfg disk steps =
        Some (take (MAX_HISTORY (WEB_SERVER cfg)) (rev (map entryOf steps) @ stored disk))"
    by (simp add: appendAll_faultFree)
  show "length (stored (appendAll cfg disk steps)) \<le> MAX_HISTORY (WEB_SERVER cfg)"
    by (simp add: e stored_def)
  show "rev (map entryOf steps) @ stored disk =
        stored (appendAll cfg disk steps) @
        drop (MAX_HISTORY (WEB_SERVER cfg)) (rev (map entryOf steps) @ stored disk)"
    unfolding e stored_def option.case by (rule append_take_drop_id[symmetric])
next
  show "logStatusToFile cfg (Parsed h) None now procs =
     (Inr (),
      Some (take (MAX_HISTORY (WEB_SERVER cfg)) (\<lparr> timestamp = now, processes = procs \<rparr> # h)),
      [])"
    by (simp add: logStatusToFile_def Let_def)
qed

text \<open>A log of two entries under a bound of two: the new entry comes first, the oldest goes.\<close>

theorem history_bounded_newest_first_witness:
  "length (stored (Some [oldEntry, olderEntry])) \<le> MAX_HISTORY (WEB_SERVER smallConfig) \<and>
   list_all faultFree [newStep] \<and> [newStep] \<noteq> [] \<and>
   appendAll smallConfig (Some [oldEntry, olderEntry]) [newStep] =
     Some [entryOf newStep, oldEntry] \<and>
   [entryOf newStep, oldEntry, olderEntry] =
     stored (appendAll smallConfig (Some [oldEntry, olderEntry]) [newStep]) @ [olderEntry]"
proof -
  have M: "MAX_HISTORY (WEB_SERVER smallConfig) = 2"
    by (simp add: smallConfig_def)
  have h1: "length (stored (Some [oldEntry, olderEntry])) \<le> MAX_HISTORY (WEB_SERVER smallConfig)"
    by (simp add: M stored_def)
  have h2: "list_all faultFree [newStep] \<and> [newStep] \<noteq> []"
    by (simp add: faultFree_def newStep_def)
  note T = history_bounded_newest_first[where disk = "Some [oldEntry, olderEntry]"
      and cfg = smallConfig and steps = "[newStep]"]
  note c = T[THEN conjunct2, THEN conjunct1, THEN mp, OF h2, THEN conjunct1]
  from c have e: "appendAll smallConfig (Some [oldEntry, olderEntry]) [newStep] =
      Some [entryOf newStep, oldEntry]"
    by (simp add: M stored_def)
  from h1 h2 e show ?thesis by (simp add: stored_def)
qed

lemma logStatusToFile_read_fault:
  assumes "code error \<noteq> Some ''ENOENT''" and "0 < MAX_HISTORY (WEB_SERVER cfg)"
  shows "logStatusToFile cfg (ReadThrows error) None now procs =
           (Inr (), Some [\<lparr> timestamp = now, processes = procs \<rparr>],
            [ConsoleError (''[Error] Failed to read status history file: '' @ message error)])"
  using assms
  by (cases "MAX_HISTORY (WEB_SERVER cfg)") (simp_all add: logStatusToFile_def Let_def)

text \<open>
  C10. When reading the history file throws an error whose code is not \<open>ENOENT\<close>, the
  error is logged with \<open>console.error\<close> and nothing else is done about it; the history is
  taken as empty, and the write that follows makes the file hold the new entry alone
  (the bound being at least one): whatever entries the file held before are gone.
\<close>

theorem read_fault_discards_history:
  assumes "code error \<noteq> Some ''ENOENT''" and "0 < MAX_HISTORY (WEB_SERVER cfg)"
  shows "logStatusToFile cfg (ReadThrows error) None now procs =
           (Inr (), Some [\<lparr> timestamp = now, processes = procs \<rparr>],
            [ConsoleError (''[Error] Failed to read status history file: '' @ message error)]) \<and>
         appendAll cfg (Some old)
           [\<lparr> step_time = now, step_procs = procs, read_fault = Some error,
              write_fault = None \<rparr>] =
           Some [\<lparr> timestamp = now, processes = procs \<rparr>]"
  using logStatusToFile_read_fault[OF assms, of now procs]
  by (simp add: readStatusFile_def)

text \<open>A read that fails with \<open>EACCES\<close> on a file of two entries.\<close>

theorem read_fault_discards_history_witness:
  "code denied \<noteq> Some ''ENOENT'' \<and> 0 < MAX_HISTORY (WEB_SERVER exampleConfig) \<and>
   logStatusToFile exampleConfig (ReadThrows denied) None ''11/3/2026, 9:02:00 AM'' [worker] =
     (Inr (), Some [\<lparr> timestamp = ''11/3/2026, 9:02:00 AM'', processes = [worker] \<rparr>],
      [ConsoleError (''[Error] Failed to read status history file: '' @ message denied)]) \<and>
   appendAll exampleConfig (Some [oldEntry, olderEntry])
     [\<lparr> step_time = ''11/3/2026, 9:02:00 AM'', step_procs = [worker],
        read_fault = Some denied, write_fault = None \<rparr>] =
     Some [\<lparr> timestamp = ''11/3/2026, 9:02:00 AM'', processes = [worker] \<rparr>]"
proof -
  have h1: "code denied \<noteq> Some ''ENOENT''"
    by (simp add: denied_def)
  have h2: "0 < MAX_HISTORY (WEB_SERVER exampleConfig)"
    by (simp add: exampleConfig_def CONFIG_def)
  from h1 h2 read_fault_discards_history[OF h1 h2, of "''11/3/2026, 9:02:00 AM''" "[worker]"
      "[oldEntry, olderEntry]"]
  show ?thesis by blast
qed

end
